theory Spec2Isabelle
  imports Main "HOL-Library.Word" "HOL-Library.Sublist" "HOL-Library.AList"
begin

section \<open>Python values and exceptions\<close>

text \<open>
  A Python float is carried by its IEEE-754 bit pattern: the code below only copies
  floats, it never computes with them.
\<close>

type_synonym float = "64 word"

text \<open>
  The values a parameter field can hold. \<open>VBool\<close> is kept apart from \<open>VInt\<close>
  because Python's \<open>bool\<close> is a subclass of \<open>int\<close>: \<open>isinstance(True, int)\<close>
  holds. \<open>VObj\<close> is any other object (an enumeration member, a list, ...), named by
  its \<open>repr\<close>.
\<close>

datatype pyval =
    VNone
  | VBool bool
  | VInt int
  | VFloat float
  | VStr string
  | VObj string

text \<open>
  The messages of the exceptions raised by the source, with the data their f-strings
  print. \<open>No_Message\<close> is a bare \<open>raise TypeError\<close>.
\<close>

datatype message =
    No_Message
  | Invalid_Top
  | Invalid_GeneratorCall_by string
  | Anonymous_Module nat
  | Undefined_Target
  | No_Flat_Name "string list" string
  | Conflicting_Name nat "string \<times> string"
  | Has_Interfaces string "string list"
  | Unresolved_Instance string string
  | Invalid_Parameter pyval string
  | No_Mos_Module string
  | Invalid_Width int
  | Invalid_Length int
  | Invalid_Parallel_Fingers int
  | Invalid_Series_Fingers int
  | Unsupported_Operand string string string
  | No_Attribute string
  | Value_Out_Of_Range int

datatype error =
    RuntimeError message
  | TypeError message
  | ValueError message
  | AttributeError message

section \<open>\<open>Elaborator.flatname\<close> (elab/elaborators/base.py)\<close>

text \<open>\<open>sep.join(segments)\<close>.\<close>

fun join :: "string \<Rightarrow> string list \<Rightarrow> string" where
  "join sep [] = []"
| "join sep [x] = x"
| "join sep (x # y # ys) = x @ sep @ join sep (y # ys)"

text \<open>
  The \<open>while True\<close> loop of \<open>flatname\<close>. \<open>avoid\<close> is the dictionary, of which only
  the keys are read; \<open>maxlen\<close> is a Python integer. Each round either leaves the loop or
  makes the name one character longer, so \<open>maxlen + 1 - len(name)\<close> decreases.
\<close>

function flatname_loop ::
  "string list \<Rightarrow> (string \<rightharpoonup> 'v) \<Rightarrow> int \<Rightarrow> string \<Rightarrow> error + string" where
  "flatname_loop segments avoid maxlen name =
     (if int (length name) > maxlen then Inl (RuntimeError (No_Flat_Name segments name))
      else if avoid name = None then Inr name
      else flatname_loop segments avoid maxlen (name @ ''_''))"
  by pat_completeness auto
termination
  by (relation "measure (\<lambda>(segments, avoid, maxlen, name). nat (maxlen + 1 - int (length name)))")
    auto

declare flatname_loop.simps [simp del]

text \<open>
  \<open>flatname(segments, *, avoid=None, maxlen=511)\<close>: a keyword argument left out is
  \<open>None\<close> here.
\<close>

definition flatname ::
  "string list \<Rightarrow> (string \<rightharpoonup> 'v) option \<Rightarrow> int option \<Rightarrow> error + string" where
  "flatname segments avoid maxlen =
     flatname_loop segments
       (case avoid of None \<Rightarrow> Map.empty | Some d \<Rightarrow> d)
       (case maxlen of None \<Rightarrow> 511 | Some n \<Rightarrow> n)
       (join ''_'' segments)"

section \<open>Primitives (primitives.py)\<close>

datatype MosType = NMOS | PMOS

datatype MosVth = STD

record MosParams =
  w :: "int option"
  l :: "int option"
  nser :: int
  npar :: int
  tp :: MosType
  vth :: MosVth

text \<open>
  \<open>x <= 0\<close> for a field declared \<open>Optional[int]\<close>: Python 3 raises \<open>TypeError\<close> when
  \<open>x\<close> is \<open>None\<close>.
\<close>

fun le_zero :: "int option \<Rightarrow> error + bool" where
  "le_zero None = Inl (TypeError (Unsupported_Operand ''<='' ''NoneType'' ''int''))"
| "le_zero (Some v) = Inr (v \<le> 0)"

text \<open>
  Construction of a \<open>MosParams\<close>: the fields are stored, then
  \<open>__post_init_post_parse__\<close> runs its value checks in the order of the source. The
  result is the new object, or the exception that leaves the constructor.
\<close>

definition post_init_post_parse :: "MosParams \<Rightarrow> error + unit" where
  "post_init_post_parse self =
     (case le_zero (w self) of
        Inl e \<Rightarrow> Inl e
      | Inr True \<Rightarrow> Inl (ValueError (Invalid_Width (the (w self))))
      | Inr False \<Rightarrow>
          (case le_zero (l self) of
             Inl e \<Rightarrow> Inl e
           | Inr True \<Rightarrow> Inl (ValueError (Invalid_Length (the (l self))))
           | Inr False \<Rightarrow>
               if npar self \<le> 0 then Inl (ValueError (Invalid_Parallel_Fingers (npar self)))
               else if nser self \<le> 0 then Inl (ValueError (Invalid_Series_Fingers (nser self)))
               else Inr ()))"

definition new_MosParams ::
  "int option \<Rightarrow> int option \<Rightarrow> int \<Rightarrow> int \<Rightarrow> MosType \<Rightarrow> MosVth \<Rightarrow> error + MosParams" where
  "new_MosParams w0 l0 nser0 npar0 tp0 vth0 =
     (let self = \<lparr>w = w0, l = l0, nser = nser0, npar = npar0, tp = tp0, vth = vth0\<rparr>
      in case post_init_post_parse self of Inl e \<Rightarrow> Inl e | Inr _ \<Rightarrow> Inr self)"

text \<open>The defaults of the declaration: \<open>MosParams()\<close>.\<close>

definition default_MosParams :: "error + MosParams" where
  "default_MosParams = new_MosParams None None 1 1 NMOS STD"

section \<open>Graph entities\<close>

text \<open>
  The classes of the circuit graph are declared outside the files at hand; the records
  below hold the attributes that the elaborator, the exporter and the technology walker
  read or write. Attributes of the same name in different classes are told apart by the
  record's name (\<open>Module.name\<close>, \<open>Signal.name\<close>).
\<close>

datatype PortDir = INPUT | OUTPUT | INOUT | NONE

datatype Visibility = INTERNAL | PORT

record Signal =
  name :: string
  width :: int
  direction :: PortDir
  vis :: Visibility

text \<open>A slice \<open>signal[bot:top]\<close>; the attributes are \<open>signal\<close>, \<open>bot\<close> and \<open>top\<close>.\<close>

record Slice =
  slice_signal :: Signal
  slice_bot :: int
  slice_top :: int

text \<open>
  What an instance port can be connected to: a \<open>Signal\<close>, a \<open>Slice\<close>, a \<open>Concat\<close>
  (given by its \<open>parts\<close>) or, for the final \<open>else\<close> of the type tests, anything else.
\<close>

datatype Connectable =
    CSignal Signal
  | CSlice Slice
  | CConcat "Connectable list"
  | CNotConnectable

text \<open>
  The class of a parameter object. \<open>Primitive.paramtype\<close> is such a class; \<open>ident\<close> is
  the identity of the \<open>Primitive\<close> object, which \<open>prim is Mos\<close> compares.
\<close>

datatype ParamType =
    MosParams_type
  | DiodeParams_type
  | ResistorParams_type
  | CapacitorParams_type
  | InductorParams_type
  | ShortParams_type

record Primitive =
  ident :: nat
  name :: string
  desc :: string
  port_list :: "Signal list"
  paramtype :: ParamType

text \<open>
  A parameter object of a primitive: a \<open>MosParams\<close>, or an object of another
  parameter class given by its fields in declaration order.
\<close>

datatype Params =
    MosParams_obj MosParams
  | Paramclass_obj ParamType "(string \<times> pyval) list"

fun repr_MosType :: "MosType \<Rightarrow> string" where
  "repr_MosType NMOS = ''MosType.NMOS''"
| "repr_MosType PMOS = ''MosType.PMOS''"

fun repr_MosVth :: "MosVth \<Rightarrow> string" where
  "repr_MosVth STD = ''MosVth.STD''"

fun optional_int :: "int option \<Rightarrow> pyval" where
  "optional_int None = VNone"
| "optional_int (Some i) = VInt i"

text \<open>
  \<open>dataclasses.asdict\<close>: the fields in declaration order; an enumeration member stays
  the member it is.
\<close>

fun asdict :: "Params \<Rightarrow> (string \<times> pyval) list" where
  "asdict (MosParams_obj p) =
     [(''w'', optional_int (w p)), (''l'', optional_int (l p)),
      (''nser'', VInt (nser p)), (''npar'', VInt (npar p)),
      (''tp'', VObj (repr_MosType (tp p))), (''vth'', VObj (repr_MosVth (vth p)))]"
| "asdict (Paramclass_obj t kvs) = kvs"

record PrimitiveCall =
  prim :: Primitive
  params :: Params

record ExternalModule =
  ident :: nat
  name :: string
  ports :: "(string \<times> Signal) list"

record ExternalModuleCall =
  module :: ExternalModule
  params :: "(string \<times> pyval) list"

text \<open>
  The port of a primitive, \<open>Port(name=...)\<close>, and the two primitives the claims reach.
\<close>

definition Port :: "string \<Rightarrow> Signal" where
  "Port n = \<lparr>Signal.name = n, width = 1, direction = NONE, vis = PORT\<rparr>"

definition Mos :: Primitive where
  "Mos = \<lparr>Primitive.ident = 0, name = ''Mos'', desc = ''Mos Transistor'',
           port_list = [Port ''d'', Port ''g'', Port ''s'', Port ''b''],
           paramtype = MosParams_type\<rparr>"

definition Resistor :: Primitive where
  "Resistor = \<lparr>Primitive.ident = 2, name = ''Resistor'', desc = ''Resistor'',
           port_list = [Port ''p'', Port ''n''], paramtype = ResistorParams_type\<rparr>"

text \<open>
  What an \<open>Instance\<close> can point to. A \<open>Module\<close> is an object with identity and with
  attributes that elaboration writes, so it is named by its address (\<open>id(module)\<close>) and
  kept in a heap; the two kinds of call are immutable values. A \<open>GeneratorCall\<close> is
  named by its address; its contents are never read.
\<close>

datatype Instantiable =
    IModule nat
  | IPrimitiveCall PrimitiveCall
  | IExternalModuleCall ExternalModuleCall
  | IGeneratorCall nat

text \<open>
  \<open>inst_of\<close> is the attribute \<open>of\<close>; \<open>resolved\<close> and \<open>elaborated\<close> are \<open>_resolved\<close>
  and \<open>_elaborated\<close>. \<open>_resolved\<close> is \<open>None\<close> for a target that is not defined.
\<close>

record Instance =
  name :: string
  inst_of :: Instantiable
  resolved :: "Instantiable option"
  elaborated :: bool
  conns :: "(string \<times> Connectable) list"

record InstArray =
  name :: string
  resolved :: "Instantiable option"
  elaborated :: bool

record BundleInstance =
  name :: string
  elaborated :: bool

text \<open>
  A \<open>Module\<close>. Its dictionaries keep insertion order, hence association lists;
  \<open>pymodule\<close> is \<open>module._pymodule.__name__\<close>, and of \<open>interfaces\<close> only the keys
  are read.
\<close>

record Module =
  name :: string
  pymodule :: string
  interfaces :: "string list"
  ports :: "(string \<times> Signal) list"
  signals :: "(string \<times> Signal) list"
  instances :: "(string \<times> Instance) list"
  instarrays :: "(string \<times> InstArray) list"
  bundles :: "(string \<times> BundleInstance) list"

text \<open>What can be handed to the elaborator as \<open>top\<close>.\<close>

datatype Elabable =
    Top_Module nat
  | Top_Other

section \<open>The base elaborator (elab/elaborators/base.py)\<close>

text \<open>
  A method call of a run, as it is entered: the three visits of the traversal, named
  by the owning \<open>Module\<close> and the key of the visited object in its dictionary, and the
  three methods a pass overrides.
\<close>

datatype call =
    Call_elaborate_instance nat string
  | Call_elaborate_instance_array nat string
  | Call_elaborate_bundle_instance nat string
  | Call_elaborate_module nat
  | Call_elaborate_primitive_call PrimitiveCall
  | Call_elaborate_external_module ExternalModuleCall

text \<open>
  The state of a run: \<open>modules\<close> is the dictionary \<open>self.modules\<close>, from \<open>id(module)\<close>
  to the result stored for it (a \<open>Module\<close>, by address); \<open>pass_data\<close> is whatever else
  the pass object keeps; \<open>heap\<close> holds the \<open>Module\<close> objects; \<open>calls\<close> is the sequence
  of method calls made so far, oldest first. Python's exceptions leave the state as it
  is when they are raised, so a result is the pair of the outcome and the state.
\<close>

record 'p run =
  modules :: "nat \<rightharpoonup> nat"
  pass_data :: 'p
  heap :: "nat \<Rightarrow> Module"
  calls :: "call list"

text \<open>
  A pass: the name \<open>str(self)\<close> prints, and the three methods a subclass overrides.
  A method reads the graph, updates the data of the pass, and returns or raises.
\<close>

record 'p Pass =
  pass_name :: string
  elaborate_module :: "(nat \<Rightarrow> Module) \<Rightarrow> nat \<Rightarrow> 'p \<Rightarrow> (error + nat) \<times> 'p"
  elaborate_primitive_call :: "PrimitiveCall \<Rightarrow> 'p \<Rightarrow> (error + Instantiable) \<times> 'p"
  elaborate_external_module :: "ExternalModuleCall \<Rightarrow> 'p \<Rightarrow> (error + Instantiable) \<times> 'p"

text \<open>The methods as the base class defines them: each returns its argument.\<close>

definition Elaborator :: "'p Pass" where
  "Elaborator =
     \<lparr>pass_name = ''Elaborator'',
      elaborate_module = (\<lambda>h m d. (Inr m, d)),
      elaborate_primitive_call = (\<lambda>c d. (Inr (IPrimitiveCall c), d)),
      elaborate_external_module = (\<lambda>c d. (Inr (IExternalModuleCall c), d))\<rparr>"

text \<open>A call of one of the three methods of the pass: logged, then run on the pass's data.\<close>

definition call_elaborate_module :: "'p Pass \<Rightarrow> nat \<Rightarrow> 'p run \<Rightarrow> (error + nat) \<times> 'p run" where
  "call_elaborate_module P m s =
     (case elaborate_module P (heap s) m (pass_data s) of
        (r, d) \<Rightarrow> (r, s\<lparr>pass_data := d, calls := calls s @ [Call_elaborate_module m]\<rparr>))"

definition call_elaborate_primitive_call ::
  "'p Pass \<Rightarrow> PrimitiveCall \<Rightarrow> 'p run \<Rightarrow> (error + Instantiable) \<times> 'p run" where
  "call_elaborate_primitive_call P c s =
     (case elaborate_primitive_call P c (pass_data s) of
        (r, d) \<Rightarrow> (r, s\<lparr>pass_data := d, calls := calls s @ [Call_elaborate_primitive_call c]\<rparr>))"

definition call_elaborate_external_module ::
  "'p Pass \<Rightarrow> ExternalModuleCall \<Rightarrow> 'p run \<Rightarrow> (error + Instantiable) \<times> 'p run" where
  "call_elaborate_external_module P c s =
     (case elaborate_external_module P c (pass_data s) of
        (r, d) \<Rightarrow> (r, s\<lparr>pass_data := d, calls := calls s @ [Call_elaborate_external_module c]\<rparr>))"

text \<open>\<open>elaborate_generator_call\<close> of a pass that is not the generator pass.\<close>

definition elaborate_generator_call :: "'p Pass \<Rightarrow> nat \<Rightarrow> 'p run \<Rightarrow> (error + nat) \<times> 'p run" where
  "elaborate_generator_call P c s =
     (Inl (RuntimeError (Invalid_GeneratorCall_by (pass_name P))), s)"

text \<open>
  \<open>obj._elaborated = True\<close> for the object under key \<open>k\<close> of one of the three
  dictionaries of the \<open>Module\<close> at \<open>m\<close>.
\<close>

definition set_instance_elaborated :: "nat \<Rightarrow> string \<Rightarrow> (nat \<Rightarrow> Module) \<Rightarrow> (nat \<Rightarrow> Module)" where
  "set_instance_elaborated m k h =
     h(m := (h m)\<lparr>instances :=
        map (\<lambda>(k', i). if k' = k then (k', i\<lparr>Instance.elaborated := True\<rparr>) else (k', i))
          (instances (h m))\<rparr>)"

definition set_instarray_elaborated :: "nat \<Rightarrow> string \<Rightarrow> (nat \<Rightarrow> Module) \<Rightarrow> (nat \<Rightarrow> Module)" where
  "set_instarray_elaborated m k h =
     h(m := (h m)\<lparr>instarrays :=
        map (\<lambda>(k', a). if k' = k then (k', a\<lparr>InstArray.elaborated := True\<rparr>) else (k', a))
          (instarrays (h m))\<rparr>)"

definition set_bundle_elaborated :: "nat \<Rightarrow> string \<Rightarrow> (nat \<Rightarrow> Module) \<Rightarrow> (nat \<Rightarrow> Module)" where
  "set_bundle_elaborated m k h =
     h(m := (h m)\<lparr>bundles :=
        map (\<lambda>(k', b). if k' = k then (k', b\<lparr>BundleInstance.elaborated := True\<rparr>) else (k', b))
          (bundles (h m))\<rparr>)"

text \<open>\<open>elaborate_bundle_instance\<close>, and the loop over \<open>module.bundles.values()\<close>.\<close>

definition elaborate_bundle_instance :: "nat \<Rightarrow> string \<times> BundleInstance \<Rightarrow> 'p run \<Rightarrow> 'p run" where
  "elaborate_bundle_instance m kb s =
     s\<lparr>heap := set_bundle_elaborated m (fst kb) (heap s),
       calls := calls s @ [Call_elaborate_bundle_instance m (fst kb)]\<rparr>"

fun elaborate_bundle_instances ::
  "nat \<Rightarrow> (string \<times> BundleInstance) list \<Rightarrow> 'p run \<Rightarrow> 'p run" where
  "elaborate_bundle_instances m [] s = s"
| "elaborate_bundle_instances m (kb # kbs) s =
     elaborate_bundle_instances m kbs (elaborate_bundle_instance m kb s)"

text \<open>
  The traversal. The methods call each other through the graph, which Python lets be
  cyclic, so the recursion is bounded by the number of nested calls of
  \<open>elaborate_module_base\<close> still allowed: \<open>None\<close> is a run that needs more than that.
  The loops run over the items a dictionary has when the loop starts; the key names the
  object whose flag is set.
\<close>

function (sequential) elaborate_module_base ::
    "nat \<Rightarrow> 'p Pass \<Rightarrow> nat \<Rightarrow> 'p run \<Rightarrow> ((error + nat) \<times> 'p run) option"
  and elaborate_instances ::
    "nat \<Rightarrow> 'p Pass \<Rightarrow> nat \<Rightarrow> (string \<times> Instance) list \<Rightarrow> 'p run \<Rightarrow>
       ((error + unit) \<times> 'p run) option"
  and elaborate_instance_arrays ::
    "nat \<Rightarrow> 'p Pass \<Rightarrow> nat \<Rightarrow> (string \<times> InstArray) list \<Rightarrow> 'p run \<Rightarrow>
       ((error + unit) \<times> 'p run) option"
  and elaborate_instance ::
    "nat \<Rightarrow> 'p Pass \<Rightarrow> nat \<Rightarrow> string \<times> Instance \<Rightarrow> 'p run \<Rightarrow>
       ((error + Instantiable) \<times> 'p run) option"
  and elaborate_instance_array ::
    "nat \<Rightarrow> 'p Pass \<Rightarrow> nat \<Rightarrow> string \<times> InstArray \<Rightarrow> 'p run \<Rightarrow>
       ((error + Instantiable) \<times> 'p run) option"
  and elaborate_instantiable ::
    "nat \<Rightarrow> 'p Pass \<Rightarrow> Instantiable option \<Rightarrow> 'p run \<Rightarrow>
       ((error + Instantiable) \<times> 'p run) option"
where
  "elaborate_module_base 0 P m s = None"
| "elaborate_module_base (Suc n) P m s =
     (if modules s m \<noteq> None then Some (Inr m, s)
      else if Module.name (heap s m) = [] then Some (Inl (RuntimeError (Anonymous_Module m)), s)
      else
        (case elaborate_instances n P m (instances (heap s m)) s of
           None \<Rightarrow> None
         | Some (Inl e, s1) \<Rightarrow> Some (Inl e, s1)
         | Some (Inr _, s1) \<Rightarrow>
             (case elaborate_instance_arrays n P m (instarrays (heap s1 m)) s1 of
                None \<Rightarrow> None
              | Some (Inl e, s2) \<Rightarrow> Some (Inl e, s2)
              | Some (Inr _, s2) \<Rightarrow>
                  (case call_elaborate_module P m
                          (elaborate_bundle_instances m (bundles (heap s2 m)) s2) of
                     (Inl e, s4) \<Rightarrow> Some (Inl e, s4)
                   | (Inr result, s4) \<Rightarrow>
                       Some (Inr result, s4\<lparr>modules := (modules s4)(m \<mapsto> result)\<rparr>)))))"
| "elaborate_instances n P m [] s = Some (Inr (), s)"
| "elaborate_instances n P m (ki # kis) s =
     (case elaborate_instance n P m ki s of
        None \<Rightarrow> None
      | Some (Inl e, s1) \<Rightarrow> Some (Inl e, s1)
      | Some (Inr _, s1) \<Rightarrow> elaborate_instances n P m kis s1)"
| "elaborate_instance_arrays n P m [] s = Some (Inr (), s)"
| "elaborate_instance_arrays n P m (ka # kas) s =
     (case elaborate_instance_array n P m ka s of
        None \<Rightarrow> None
      | Some (Inl e, s1) \<Rightarrow> Some (Inl e, s1)
      | Some (Inr _, s1) \<Rightarrow> elaborate_instance_arrays n P m kas s1)"
| "elaborate_instance n P m ki s =
     elaborate_instantiable n P (Instance.resolved (snd ki))
       (s\<lparr>heap := set_instance_elaborated m (fst ki) (heap s),
          calls := calls s @ [Call_elaborate_instance m (fst ki)]\<rparr>)"
| "elaborate_instance_array n P m ka s =
     elaborate_instantiable n P (InstArray.resolved (snd ka))
       (s\<lparr>heap := set_instarray_elaborated m (fst ka) (heap s),
          calls := calls s @ [Call_elaborate_instance_array m (fst ka)]\<rparr>)"
| "elaborate_instantiable n P None s = Some (Inl (RuntimeError Undefined_Target), s)"
| "elaborate_instantiable n P (Some (IModule m)) s =
     (case elaborate_module_base n P m s of
        None \<Rightarrow> None
      | Some (Inl e, s1) \<Rightarrow> Some (Inl e, s1)
      | Some (Inr result, s1) \<Rightarrow> Some (Inr (IModule result), s1))"
| "elaborate_instantiable n P (Some (IPrimitiveCall c)) s =
     Some (call_elaborate_primitive_call P c s)"
| "elaborate_instantiable n P (Some (IExternalModuleCall c)) s =
     Some (call_elaborate_external_module P c s)"
| "elaborate_instantiable n P (Some (IGeneratorCall c)) s = Some (Inl (TypeError No_Message), s)"
  by pat_completeness auto
termination
  by (relation "measures
       [case_sum
          (case_sum (\<lambda>(n, P, m, s). n)
             (case_sum (\<lambda>(n, P, m, kis, s). n) (\<lambda>(n, P, m, kas, s). n)))
          (case_sum (\<lambda>(n, P, m, ki, s). n)
             (case_sum (\<lambda>(n, P, m, ka, s). n) (\<lambda>(n, P, t, s). n))),
        case_sum
          (case_sum (\<lambda>(n, P, m, s). 0)
             (case_sum (\<lambda>(n, P, m, kis, s). 3 + length kis)
                (\<lambda>(n, P, m, kas, s). 3 + length kas)))
          (case_sum (\<lambda>(n, P, m, ki, s). 2)
             (case_sum (\<lambda>(n, P, m, ka, s). 2) (\<lambda>(n, P, t, s). 1)))]")
    auto

text \<open>\<open>elaborate_top\<close>, and the entry point \<open>elaborate\<close>, which makes the pass object.\<close>

definition elaborate_top ::
  "nat \<Rightarrow> 'p Pass \<Rightarrow> Elabable \<Rightarrow> 'p run \<Rightarrow> ((error + nat) \<times> 'p run) option" where
  "elaborate_top n P top_node s =
     (case top_node of
        Top_Module m \<Rightarrow> elaborate_module_base n P m s
      | Top_Other \<Rightarrow> Some (Inl (TypeError Invalid_Top), s))"

definition elaborate ::
  "nat \<Rightarrow> 'p Pass \<Rightarrow> 'p \<Rightarrow> (nat \<Rightarrow> Module) \<Rightarrow> Elabable \<Rightarrow> ((error + nat) \<times> 'p run) option" where
  "elaborate n P d h top_node =
     elaborate_top n P top_node \<lparr>modules = Map.empty, pass_data = d, heap = h, calls = []\<rparr>"

section \<open>Passes and graphs used as examples\<close>

text \<open>A \<open>Module\<close> without contents, defined in the Python module \<open>lib\<close>.\<close>

definition leaf :: "string \<Rightarrow> Module" where
  "leaf n =
     \<lparr>Module.name = n, pymodule = ''lib'', interfaces = [], ports = [], signals = [],
      instances = [], instarrays = [], bundles = []\<rparr>"

definition instance_of :: "string \<Rightarrow> Instantiable \<Rightarrow> Instance" where
  "instance_of n t =
     \<lparr>Instance.name = n, inst_of = t, resolved = Some t, elaborated = False, conns = []\<rparr>"

text \<open>
  A pass whose \<open>elaborate_module\<close> counts its calls and returns, as the elaborated
  \<open>Module\<close>, the object at the next address instead of its argument.
\<close>

definition Replacing_pass :: "nat Pass" where
  "Replacing_pass =
     \<lparr>pass_name = ''Replacing_pass'',
      elaborate_module = (\<lambda>h m d. (Inr (Suc m), Suc d)),
      elaborate_primitive_call = (\<lambda>c d. (Inr (IPrimitiveCall c), d)),
      elaborate_external_module = (\<lambda>c d. (Inr (IExternalModuleCall c), d))\<rparr>"

text \<open>A graph of two named \<open>Module\<close>s without contents, and a run that has not started.\<close>

definition two_leaves :: "nat \<Rightarrow> Module" where
  "two_leaves = (\<lambda>a. if a = 0 then leaf ''a'' else leaf ''b'')"

definition fresh :: "'p \<Rightarrow> (nat \<Rightarrow> Module) \<Rightarrow> 'p run" where
  "fresh d h = \<lparr>modules = Map.empty, pass_data = d, heap = h, calls = []\<rparr>"



text \<open>\<open>top\<close> at address 0 holds one instance whose target is a \<open>GeneratorCall\<close>.\<close>

definition generator_graph :: "nat \<Rightarrow> Module" where
  "generator_graph =
     (\<lambda>a. if a = 0
        then (leaf ''top'')\<lparr>instances := [(''g'', instance_of ''g'' (IGeneratorCall 7))]\<rparr>
        else leaf ''child'')"

text \<open>The states that the example runs end in.\<close>

definition replaced :: "nat run" where
  "replaced =
     \<lparr>modules = [0 \<mapsto> Suc 0], pass_data = Suc 0, heap = two_leaves,
      calls = [Call_elaborate_module 0]\<rparr>"


definition generator_failed :: "unit run" where
  "generator_failed =
     \<lparr>modules = Map.empty, pass_data = (),
      heap = generator_graph
        (0 := (leaf ''top'')
           \<lparr>instances := [(''g'', (instance_of ''g'' (IGeneratorCall 7))
                                    \<lparr>Instance.elaborated := True\<rparr>)]\<rparr>),
      calls = [Call_elaborate_instance 0 ''g'']\<rparr>"

section \<open>The order of calls in a run\<close>







section \<open>The wire format (the part of circuit_pb2 that the exporter writes)\<close>

record QualifiedName =
  domain :: string
  name :: string

datatype proto_Direction = Direction_INPUT | Direction_OUTPUT | Direction_INOUT | Direction_NONE

record proto_Signal =
  name :: string
  width :: int

record proto_Port =
  direction :: proto_Direction
  signal :: proto_Signal

text \<open>The fields \<open>signal\<close>, \<open>top\<close> and \<open>bot\<close> of the message \<open>Slice\<close>.\<close>

record proto_Slice =
  pslice_signal :: string
  pslice_top :: int
  pslice_bot :: int

text \<open>
  A \<open>Connection\<close> is one of \<open>sig\<close>, \<open>slice\<close> and \<open>concat\<close>, the last given by its
  \<open>parts\<close>; a parameter value is one of \<open>integer\<close>, \<open>double\<close> and \<open>string\<close>.
\<close>

datatype proto_Connection =
    Connection_sig proto_Signal
  | Connection_slice proto_Slice
  | Connection_concat "proto_Connection list"

datatype proto_Parameter =
    Parameter_integer int
  | Parameter_double float
  | Parameter_string string

text \<open>\<open>module\<close> is the qualified name \<open>pinst.module.qn\<close>.\<close>

record proto_Instance =
  name :: string
  module :: QualifiedName
  parameters :: "string \<rightharpoonup> proto_Parameter"
  connections :: "string \<rightharpoonup> proto_Connection"

record proto_Module =
  name :: QualifiedName
  ports :: "proto_Port list"
  signals :: "proto_Signal list"
  instances :: "proto_Instance list"

record proto_ExternalModule =
  name :: string
  ports :: "proto_Port list"

record Package =
  name :: string
  modules :: "proto_Module list"
  ext_modules :: "proto_ExternalModule list"

section \<open>The exporter (proto/to_proto.py)\<close>

text \<open>
  The exporter object. \<open>modules\<close> is the dictionary from \<open>id(module)\<close> to the exported
  \<open>Module\<close>, kept with the order in which Python keeps its keys, the order of first
  insertion; \<open>AList.update\<close> is the assignment \<open>d[k] = v\<close>. Of the other two
  dictionaries the order is never read.
\<close>

record ProtoExporter =
  modules :: "(nat \<times> proto_Module) list"
  module_names :: "string \<times> string \<rightharpoonup> proto_Module"
  ext_modules :: "nat \<rightharpoonup> proto_ExternalModule"
  pkg :: Package

text \<open>\<open>ProtoExporter(tops, domain)\<close>; the name of the package is \<open>domain or ""\<close>.\<close>

definition new_ProtoExporter :: "string option \<Rightarrow> ProtoExporter" where
  "new_ProtoExporter domain0 =
     \<lparr>ProtoExporter.modules = [], module_names = Map.empty, ext_modules = Map.empty,
      pkg = \<lparr>Package.name = (case domain0 of None \<Rightarrow> [] | Some d \<Rightarrow> d),
             modules = [], ext_modules = []\<rparr>\<rparr>"

definition export_module_name ::
  "(nat \<Rightarrow> Module) \<Rightarrow> ProtoExporter \<Rightarrow> nat \<Rightarrow> error + QualifiedName" where
  "export_module_name h self m =
     (let mname = pymodule (h m) @ ''.'' @ Module.name (h m);
          qname = \<lparr>QualifiedName.domain = Package.name (pkg self), name = mname\<rparr>
      in if module_names self (QualifiedName.domain qname, QualifiedName.name qname) \<noteq> None
         then Inl (RuntimeError (Conflicting_Name m
                 (QualifiedName.domain qname, QualifiedName.name qname)))
         else Inr qname)"

text \<open>
  \<open>export_port_dir\<close>: the four members of the enumeration; the \<open>raise ValueError\<close> after
  them is not reached by a member.
\<close>

fun export_port_dir :: "Signal \<Rightarrow> proto_Direction" where
  "export_port_dir port =
     (case Signal.direction port of
        INPUT \<Rightarrow> Direction_INPUT
      | OUTPUT \<Rightarrow> Direction_OUTPUT
      | INOUT \<Rightarrow> Direction_INOUT
      | NONE \<Rightarrow> Direction_NONE)"

definition export_port :: "Signal \<Rightarrow> proto_Port" where
  "export_port port =
     \<lparr>proto_Port.direction = export_port_dir port,
      signal = \<lparr>proto_Signal.name = Signal.name port, width = Signal.width port\<rparr>\<rparr>"

definition export_external_module ::
  "ProtoExporter \<Rightarrow> ExternalModule \<Rightarrow> proto_ExternalModule \<times> ProtoExporter" where
  "export_external_module self emod =
     (case ProtoExporter.ext_modules self (ExternalModule.ident emod) of
        Some pmod \<Rightarrow> (pmod, self)
      | None \<Rightarrow>
          (let pmod = \<lparr>proto_ExternalModule.name = ExternalModule.name emod,
                       ports = map (\<lambda>kp. export_port (snd kp)) (ExternalModule.ports emod)\<rparr>
           in (pmod,
               self\<lparr>ProtoExporter.ext_modules :=
                      (ProtoExporter.ext_modules self)(ExternalModule.ident emod \<mapsto> pmod),
                    pkg := (pkg self)\<lparr>Package.ext_modules :=
                      Package.ext_modules (pkg self) @ [pmod]\<rparr>\<rparr>)))"

text \<open>
  \<open>export_concat\<close>, on the \<open>parts\<close> of a \<open>Concat\<close>: the loop over the parts and the
  type tests on one part.
\<close>

fun export_concat :: "Connectable list \<Rightarrow> error + proto_Connection list"
  and export_part :: "Connectable \<Rightarrow> error + proto_Connection" where
  "export_concat [] = Inr []"
| "export_concat (part # parts) =
     (case export_part part of
        Inl e \<Rightarrow> Inl e
      | Inr pconn \<Rightarrow>
          (case export_concat parts of
             Inl e \<Rightarrow> Inl e
           | Inr pconns \<Rightarrow> Inr (pconn # pconns)))"
| "export_part (CSignal s) =
     Inr (Connection_sig \<lparr>proto_Signal.name = Signal.name s, width = Signal.width s\<rparr>)"
| "export_part (CSlice sl) =
     Inr (Connection_slice
            \<lparr>pslice_signal = Signal.name (slice_signal sl), pslice_top = slice_top sl,
             pslice_bot = slice_bot sl\<rparr>)"
| "export_part (CConcat parts) =
     (case export_concat parts of
        Inl e \<Rightarrow> Inl e
      | Inr pconns \<Rightarrow> Inr (Connection_concat pconns))"
| "export_part CNotConnectable = Inl (TypeError No_Message)"

text \<open>
  The loop of \<open>export_instance\<close> over \<open>inst.conns.items()\<close>; the type tests are those
  of \<open>export_part\<close>.
\<close>

fun export_connections ::
  "(string \<times> Connectable) list \<Rightarrow> (string \<rightharpoonup> proto_Connection) \<Rightarrow>
     error + (string \<rightharpoonup> proto_Connection)" where
  "export_connections [] pconns = Inr pconns"
| "export_connections ((pname, sig) # rest) pconns =
     (case export_part sig of
        Inl e \<Rightarrow> Inl e
      | Inr pconn \<Rightarrow> export_connections rest (pconns(pname \<mapsto> pconn)))"

text \<open>
  Modelled from the spec: the schema \<open>circuit_pb2\<close> is not among the sources. The
  specification calls the field \<open>integer\<close> of a parameter the wire integer variant; a
  protobuf integer has a fixed width, taken here to be the 64 bits of a signed
  \<open>int64\<close>, and the assignment of a Python integer outside it raises \<open>ValueError\<close>.
\<close>

definition int64 :: "int \<Rightarrow> bool" where
  "int64 i = (- (2 ^ 63) \<le> i \<and> i < 2 ^ 63)"

text \<open>
  The loop of \<open>export_instance\<close> over \<open>params.items()\<close>, with the type tests in the
  order of the source: \<open>None\<close>, \<open>int\<close> (which a \<open>bool\<close> passes, as 0 or 1), \<open>float\<close>,
  \<open>str\<close>, and the \<open>TypeError\<close> for the rest. The assignment to \<open>integer\<close> raises
  when the value does not fit the field.
\<close>

fun export_parameters ::
  "string \<Rightarrow> (string \<times> pyval) list \<Rightarrow> (string \<rightharpoonup> proto_Parameter) \<Rightarrow>
     error + (string \<rightharpoonup> proto_Parameter)" where
  "export_parameters inst [] pparams = Inr pparams"
| "export_parameters inst ((key, VNone) # rest) pparams = export_parameters inst rest pparams"
| "export_parameters inst ((key, VBool b) # rest) pparams =
     export_parameters inst rest (pparams(key \<mapsto> Parameter_integer (if b then 1 else 0)))"
| "export_parameters inst ((key, VInt i) # rest) pparams =
     (if int64 i then export_parameters inst rest (pparams(key \<mapsto> Parameter_integer i))
      else Inl (ValueError (Value_Out_Of_Range i)))"
| "export_parameters inst ((key, VFloat x) # rest) pparams =
     export_parameters inst rest (pparams(key \<mapsto> Parameter_double x))"
| "export_parameters inst ((key, VStr t) # rest) pparams =
     export_parameters inst rest (pparams(key \<mapsto> Parameter_string t))"
| "export_parameters inst ((key, VObj r) # rest) pparams =
     Inl (TypeError (Invalid_Parameter (VObj r) inst))"

text \<open>
  The end of \<open>export_instance\<close>, once the reference \<open>qn\<close> to the target and the
  parameters \<open>ps\<close> to translate are known (none for a \<open>Module\<close>).
\<close>

definition finish_instance ::
  "Instance \<Rightarrow> QualifiedName \<Rightarrow> (string \<times> pyval) list \<Rightarrow> error + proto_Instance" where
  "finish_instance inst qn ps =
     (case export_parameters (Instance.name inst) ps Map.empty of
        Inl e \<Rightarrow> Inl e
      | Inr pparams \<Rightarrow>
          (case export_connections (conns inst) Map.empty of
             Inl e \<Rightarrow> Inl e
           | Inr pconns \<Rightarrow>
               Inr \<lparr>proto_Instance.name = Instance.name inst, module = qn,
                    parameters = pparams, connections = pconns\<rparr>))"

text \<open>
  \<open>export_module\<close>, its loop over \<open>module.instances.values()\<close>, and \<open>export_instance\<close>.
  As in the elaborator, the first argument bounds the nesting of \<open>export_module\<close>, and
  \<open>None\<close> is a run that needs more. The graph \<open>h\<close> is only read.
\<close>

function (sequential) export_module ::
    "nat \<Rightarrow> (nat \<Rightarrow> Module) \<Rightarrow> nat \<Rightarrow> ProtoExporter \<Rightarrow>
       (error + proto_Module \<times> ProtoExporter) option"
  and export_instances ::
    "nat \<Rightarrow> (nat \<Rightarrow> Module) \<Rightarrow> string \<Rightarrow> Instance list \<Rightarrow> ProtoExporter \<Rightarrow>
       proto_Instance list \<Rightarrow> (error + proto_Instance list \<times> ProtoExporter) option"
  and export_instance ::
    "nat \<Rightarrow> (nat \<Rightarrow> Module) \<Rightarrow> Instance \<Rightarrow> ProtoExporter \<Rightarrow>
       (error + proto_Instance \<times> ProtoExporter) option"
where
  "export_module 0 h m self = None"
| "export_module (Suc n) h m self =
     (case map_of (ProtoExporter.modules self) m of
        Some pmod \<Rightarrow> Some (Inr (pmod, self))
      | None \<Rightarrow>
          if interfaces (h m) \<noteq> []
          then Some (Inl (RuntimeError (Has_Interfaces (Module.name (h m)) (interfaces (h m)))))
          else
            (case export_module_name h self m of
               Inl e \<Rightarrow> Some (Inl e)
             | Inr qname \<Rightarrow>
                 (case export_instances n h (Module.name (h m))
                         (map snd (Module.instances (h m))) self [] of
                    None \<Rightarrow> None
                  | Some (Inl e) \<Rightarrow> Some (Inl e)
                  | Some (Inr (pinsts, self1)) \<Rightarrow>
                      (let pmod =
                         \<lparr>proto_Module.name = qname,
                          ports = map (\<lambda>kp. export_port (snd kp)) (Module.ports (h m)),
                          signals =
                            map (\<lambda>ks. \<lparr>proto_Signal.name = Signal.name (snd ks),
                                        width = Signal.width (snd ks)\<rparr>)
                              (Module.signals (h m)),
                          instances = pinsts\<rparr>
                       in Some (Inr (pmod,
                            self1\<lparr>ProtoExporter.modules :=
                                     AList.update m pmod (ProtoExporter.modules self1),
                                   module_names :=
                                     (module_names self1)
                                       ((QualifiedName.domain qname, QualifiedName.name qname)
                                          \<mapsto> pmod),
                                   pkg := (pkg self1)\<lparr>Package.modules :=
                                     Package.modules (pkg self1) @ [pmod]\<rparr>\<rparr>))))))"
| "export_instances n h mname [] self pinsts = Some (Inr (pinsts, self))"
| "export_instances n h mname (inst # insts) self pinsts =
     (if Instance.resolved inst = None
      then Some (Inl (RuntimeError (Unresolved_Instance (Instance.name inst) mname)))
      else
        (case export_instance n h inst self of
           None \<Rightarrow> None
         | Some (Inl e) \<Rightarrow> Some (Inl e)
         | Some (Inr (pinst, self1)) \<Rightarrow>
             export_instances n h mname insts self1 (pinsts @ [pinst])))"
| "export_instance n h inst self =
     (case Instance.resolved inst of
        Some (IModule c) \<Rightarrow>
          (case export_module n h c self of
             None \<Rightarrow> None
           | Some (Inl e) \<Rightarrow> Some (Inl e)
           | Some (Inr (pmod, self1)) \<Rightarrow>
               (case finish_instance inst (proto_Module.name pmod) [] of
                  Inl e \<Rightarrow> Some (Inl e)
                | Inr pinst \<Rightarrow> Some (Inr (pinst, self1))))
      | Some (IPrimitiveCall call) \<Rightarrow>
          (case finish_instance inst
                  \<lparr>QualifiedName.domain = ''hdl21.primitives'',
                   name = Primitive.name (prim call)\<rparr>
                  (asdict (PrimitiveCall.params call)) of
             Inl e \<Rightarrow> Some (Inl e)
           | Inr pinst \<Rightarrow> Some (Inr (pinst, self)))
      | Some (IExternalModuleCall call) \<Rightarrow>
          (case export_external_module self (ExternalModuleCall.module call) of
             (pmod, self1) \<Rightarrow>
               (case finish_instance inst
                       \<lparr>QualifiedName.domain = [],
                        name = ExternalModule.name (ExternalModuleCall.module call)\<rparr>
                       (ExternalModuleCall.params call) of
                  Inl e \<Rightarrow> Some (Inl e)
                | Inr pinst \<Rightarrow> Some (Inr (pinst, self1))))
      | _ \<Rightarrow> Some (Inl (TypeError No_Message)))"
  by pat_completeness auto
termination
  by (relation "measures
       [case_sum (\<lambda>(n, h, m, self). n)
          (case_sum (\<lambda>(n, h, mname, insts, self, pinsts). n) (\<lambda>(n, h, inst, self). n)),
        case_sum (\<lambda>(n, h, m, self). 0)
          (case_sum (\<lambda>(n, h, mname, insts, self, pinsts). 2 + length insts)
             (\<lambda>(n, h, inst, self). 1))]")
    auto

text \<open>
  \<open>export\<close>: the loop over \<open>self.tops\<close>, which is a list by its type, with the
  test that each top is a \<open>Module\<close>, and the exporter made for one call.
  \<open>export_tops\<close> returns the exporter as the loop leaves it; the package is its \<open>pkg\<close>.
\<close>

fun export_tops ::
  "nat \<Rightarrow> (nat \<Rightarrow> Module) \<Rightarrow> Elabable list \<Rightarrow> ProtoExporter \<Rightarrow>
     (error + ProtoExporter) option" where
  "export_tops n h [] self = Some (Inr self)"
| "export_tops n h (Top_Other # tops) self = Some (Inl (TypeError No_Message))"
| "export_tops n h (Top_Module m # tops) self =
     (case export_module n h m self of
        None \<Rightarrow> None
      | Some (Inl e) \<Rightarrow> Some (Inl e)
      | Some (Inr (pmod, self1)) \<Rightarrow> export_tops n h tops self1)"

definition export ::
  "nat \<Rightarrow> (nat \<Rightarrow> Module) \<Rightarrow> Elabable list \<Rightarrow> string option \<Rightarrow> (error + Package) option" where
  "export n h tops domain0 =
     (case export_tops n h tops (new_ProtoExporter domain0) of
        None \<Rightarrow> None
      | Some (Inl e) \<Rightarrow> Some (Inl e)
      | Some (Inr self) \<Rightarrow> Some (Inr (pkg self)))"

section \<open>Graphs and instances used as examples of export\<close>

text \<open>
  Two \<open>Module\<close> objects of the same name \<open>X\<close> from the same Python module: the one at
  address 0 holds an instance of the one at address 1.
\<close>

definition shadow_graph :: "nat \<Rightarrow> Module" where
  "shadow_graph =
     (\<lambda>a. if a = 0
        then (leaf ''X'')\<lparr>Module.instances := [(''i'', instance_of ''i'' (IModule 1))]\<rparr>
        else leaf ''X'')"

definition shadow_name :: QualifiedName where
  "shadow_name = \<lparr>QualifiedName.domain = [], name = ''lib.X''\<rparr>"

definition shadow_child :: proto_Module where
  "shadow_child =
     \<lparr>proto_Module.name = shadow_name, ports = [], signals = [], instances = []\<rparr>"

definition shadow_parent :: proto_Module where
  "shadow_parent =
     \<lparr>proto_Module.name = shadow_name, ports = [], signals = [],
      instances = [\<lparr>proto_Instance.name = ''i'', module = shadow_name,
                     parameters = Map.empty, connections = Map.empty\<rparr>]\<rparr>"

text \<open>
  \<open>top\<close> at address 0 holds instances of \<open>mid\<close> at address 1 and of \<open>low\<close> at
  address 2, and \<open>mid\<close> holds an instance of \<open>low\<close>.
\<close>

definition diamond_graph :: "nat \<Rightarrow> Module" where
  "diamond_graph =
     (\<lambda>a. if a = 0
        then (leaf ''top'')\<lparr>Module.instances :=
               [(''m'', instance_of ''m'' (IModule 1)), (''l'', instance_of ''l'' (IModule 2))]\<rparr>
        else if a = 1
        then (leaf ''mid'')\<lparr>Module.instances := [(''l'', instance_of ''l'' (IModule 2))]\<rparr>
        else leaf ''low'')"





section \<open>Dependency order of the exported package\<close>

text \<open>
  \<open>(p, c)\<close> is in \<open>instantiates h\<close> when the \<open>Module\<close> at \<open>p\<close> holds an Instance whose
  resolved target is the \<open>Module\<close> at \<open>c\<close>.
\<close>

definition instantiates :: "(nat \<Rightarrow> Module) \<Rightarrow> (nat \<times> nat) set" where
  "instantiates h =
     {(p, c). \<exists>ki \<in> set (Module.instances (h p)). Instance.resolved (snd ki) = Some (IModule c)}"

text \<open>The identities of the exported \<open>Module\<close>s, in the order of the dictionary.\<close>

definition exported :: "ProtoExporter \<Rightarrow> nat list" where
  "exported self = map fst (ProtoExporter.modules self)"

text \<open>
  The list of the package is the list of the values of the dictionary, no identity is
  there twice, and what a \<open>Module\<close> of the list instantiates stands before it.
\<close>

definition dependency_ordered :: "(nat \<Rightarrow> Module) \<Rightarrow> ProtoExporter \<Rightarrow> bool" where
  "dependency_ordered h self =
     (Package.modules (pkg self) = map snd (ProtoExporter.modules self) \<and>
      distinct (exported self) \<and>
      (\<forall>i<length (exported self). \<forall>c. (exported self ! i, c) \<in> instantiates h \<longrightarrow>
          (\<exists>j<i. exported self ! j = c)))"

text \<open>The dictionary of \<open>self'\<close> is that of \<open>self\<close> with identities from \<open>X\<close> added at the end.\<close>

definition appended :: "ProtoExporter \<Rightarrow> ProtoExporter \<Rightarrow> nat set \<Rightarrow> bool" where
  "appended self self' X = (\<exists>new. exported self' = exported self @ new \<and> set new \<subseteq> X)"

text \<open>What the export of \<open>diamond_graph\<close> from its top leaves in the exporter.\<close>

definition diamond_low :: proto_Module where
  "diamond_low =
     \<lparr>proto_Module.name = \<lparr>QualifiedName.domain = [], name = ''lib.low''\<rparr>,
      ports = [], signals = [], instances = []\<rparr>"

definition diamond_mid :: proto_Module where
  "diamond_mid =
     \<lparr>proto_Module.name = \<lparr>QualifiedName.domain = [], name = ''lib.mid''\<rparr>,
      ports = [], signals = [],
      instances = [\<lparr>proto_Instance.name = ''l'',
                     module = \<lparr>QualifiedName.domain = [], name = ''lib.low''\<rparr>,
                     parameters = Map.empty, connections = Map.empty\<rparr>]\<rparr>"

definition diamond_top :: proto_Module where
  "diamond_top =
     \<lparr>proto_Module.name = \<lparr>QualifiedName.domain = [], name = ''lib.top''\<rparr>,
      ports = [], signals = [],
      instances = [\<lparr>proto_Instance.name = ''m'',
                     module = \<lparr>QualifiedName.domain = [], name = ''lib.mid''\<rparr>,
                     parameters = Map.empty, connections = Map.empty\<rparr>,
                   \<lparr>proto_Instance.name = ''l'',
                     module = \<lparr>QualifiedName.domain = [], name = ''lib.low''\<rparr>,
                     parameters = Map.empty, connections = Map.empty\<rparr>]\<rparr>"

definition diamond_done :: ProtoExporter where
  "diamond_done =
     \<lparr>ProtoExporter.modules = [(2, diamond_low), (1, diamond_mid), (0, diamond_top)],
      module_names =
        [([], ''lib.low'') \<mapsto> diamond_low, ([], ''lib.mid'') \<mapsto> diamond_mid,
         ([], ''lib.top'') \<mapsto> diamond_top],
      ext_modules = Map.empty,
      pkg = \<lparr>Package.name = [], modules = [diamond_low, diamond_mid, diamond_top],
             ext_modules = []\<rparr>\<rparr>"

section \<open>The ASAP7 walker (hdl21pdk/asap7/asap7.py)\<close>

text \<open>
  The module builds the table \<open>_mos_modules\<close> when it is imported, and the variable
  \<open>modname\<close> of that loop stays a global of the module. The functions below take
  both as given: \<open>mos_modules\<close> is the table as \<open>(params.tp, params.vth)\<close> looks it up,
  \<open>modname\<close> is the string the error of \<open>mos_module\<close> prints.
\<close>

record asap7 =
  mos_modules :: "MosType \<times> MosVth \<rightharpoonup> ExternalModule"
  modname :: string

text \<open>The walker keeps the calls it has made, keyed by the value of the parameters.\<close>

record Asap7Walker =
  mos_modcalls :: "MosParams \<rightharpoonup> ExternalModuleCall"

definition mos_module :: "asap7 \<Rightarrow> MosParams \<Rightarrow> error + ExternalModule" where
  "mos_module G ps =
     (case mos_modules G (tp ps, vth ps) of
        None \<Rightarrow> Inl (RuntimeError (No_Mos_Module (modname G)))
      | Some emod \<Rightarrow> Inr emod)"

text \<open>
  \<open>mos_module_call\<close>. \<open>modparams.pop("vth", None)\<close> drops the key \<open>vth\<close>, and calling
  the \<open>ExternalModule\<close> pairs it with the parameters.
\<close>

definition mos_module_call ::
  "asap7 \<Rightarrow> Asap7Walker \<Rightarrow> MosParams \<Rightarrow> error + ExternalModuleCall \<times> Asap7Walker" where
  "mos_module_call G self ps =
     (case mos_modcalls self ps of
        Some modcall \<Rightarrow> Inr (modcall, self)
      | None \<Rightarrow>
          (case mos_module G ps of
             Inl e \<Rightarrow> Inl e
           | Inr emod \<Rightarrow>
               (let modparams = filter (\<lambda>kv. fst kv \<noteq> ''vth'') (asdict (MosParams_obj ps));
                    modcall = \<lparr>ExternalModuleCall.module = emod, params = modparams\<rparr>
                in Inr (modcall, self\<lparr>mos_modcalls := (mos_modcalls self)(ps \<mapsto> modcall)\<rparr>))))"

text \<open>
  \<open>replace_primitive\<close>. A call of \<open>Mos\<close> carries a \<open>MosParams\<close>, which the constructor
  of \<open>PrimitiveCall\<close> checks; reading \<open>tp\<close> from any other object raises
  \<open>AttributeError\<close>.
\<close>

definition replace_primitive ::
  "asap7 \<Rightarrow> Asap7Walker \<Rightarrow> PrimitiveCall \<Rightarrow> error + Instantiable \<times> Asap7Walker" where
  "replace_primitive G self primcall =
     (if Primitive.ident (prim primcall) = Primitive.ident Mos
      then
        (case PrimitiveCall.params primcall of
           MosParams_obj ps \<Rightarrow>
             (case mos_module_call G self ps of
                Inl e \<Rightarrow> Inl e
              | Inr (modcall, self1) \<Rightarrow> Inr (IExternalModuleCall modcall, self1))
         | Paramclass_obj t kvs \<Rightarrow> Inl (AttributeError (No_Attribute ''tp'')))
      else Inr (IPrimitiveCall primcall, self))"

text \<open>
  \<open>visit_instance\<close>; \<open>super_visit\<close> is \<open>HierarchyWalker.visit_instance\<close>, which is
  declared outside the files at hand.
\<close>

definition visit_instance ::
  "asap7 \<Rightarrow> (Asap7Walker \<Rightarrow> Instance \<Rightarrow> error + Instance \<times> Asap7Walker) \<Rightarrow>
     Asap7Walker \<Rightarrow> Instance \<Rightarrow> error + Instance \<times> Asap7Walker" where
  "visit_instance G super_visit self inst =
     (case inst_of inst of
        IPrimitiveCall primcall \<Rightarrow>
          (case replace_primitive G self primcall of
             Inl e \<Rightarrow> Inl e
           | Inr (target, self1) \<Rightarrow> Inr (inst\<lparr>inst_of := target\<rparr>, self1))
      | _ \<Rightarrow> super_visit self inst)"

text \<open>
  Examples: a table that holds a module for the standard NMOS only, an instance of a
  PMOS and an instance of a resistor.
\<close>

definition nmos_rvt :: ExternalModule where
  "nmos_rvt =
     \<lparr>ExternalModule.ident = 10, name = ''nmos_rvt'',
      ports = map (\<lambda>p. (Signal.name p, p)) (port_list Mos)\<rparr>"

definition nmos_only :: asap7 where
  "nmos_only = \<lparr>mos_modules = [(NMOS, STD) \<mapsto> nmos_rvt], modname = ''pmos_sram''\<rparr>"

definition pmos_instance :: Instance where
  "pmos_instance =
     instance_of ''mp''
       (IPrimitiveCall \<lparr>prim = Mos,
          params = MosParams_obj \<lparr>w = Some 2, l = Some 1, nser = 1, npar = 1, tp = PMOS,
                                   vth = STD\<rparr>\<rparr>)"

definition resistor_instance :: Instance where
  "resistor_instance =
     instance_of ''r1''
       (IPrimitiveCall \<lparr>prim = Resistor,
          params = Paramclass_obj ResistorParams_type [(''r'', VFloat 0x408F400000000000)]\<rparr>)"

section \<open>Theorems\<close>

subsection \<open>flatname\<close>



lemma flatname_loop_unfold:
  "flatname_loop segments avoid maxlen nm =
     (if int (length nm) > maxlen then Inl (RuntimeError (No_Flat_Name segments nm))
      else if avoid nm = None then Inr nm
      else flatname_loop segments avoid maxlen (nm @ ''_''))"
  by (rule flatname_loop.simps)

lemma snoc_underscore: "(nm @ ''_'') @ replicate k CHR ''_'' = nm @ replicate (Suc k) CHR ''_''"
  by (simp add: replicate_append_same)

lemma flatname_loop_Inr:
  "(flatname_loop segs av mx nm = Inr r) =
     (\<exists>k. r = nm @ replicate k CHR ''_'' \<and> int (length r) \<le> mx \<and> av r = None \<and>
          (\<forall>j<k. av (nm @ replicate j CHR ''_'') \<noteq> None))"
proof (induction segs av mx nm rule: flatname_loop.induct)
  case (1 segs av mx nm)
  show ?case
  proof (cases "int (length nm) > mx")
    case True
    have "\<not> (\<exists>k. r = nm @ replicate k CHR ''_'' \<and> int (length r) \<le> mx \<and> av r = None \<and>
          (\<forall>j<k. av (nm @ replicate j CHR ''_'') \<noteq> None))"
      using True by auto
    moreover have "flatname_loop segs av mx nm \<noteq> Inr r"
      using True by (subst flatname_loop_unfold) simp
    ultimately show ?thesis by blast
  next
    case False
    show ?thesis
    proof (cases "av nm = None")
      case True
      have lhs: "flatname_loop segs av mx nm = Inr nm"
        using False True by (subst flatname_loop_unfold) simp
      have ex: "(\<exists>k. r = nm @ replicate k CHR ''_'' \<and> int (length r) \<le> mx \<and> av r = None \<and>
          (\<forall>j<k. av (nm @ replicate j CHR ''_'') \<noteq> None)) = (r = nm)"
      proof
        assume "\<exists>k. r = nm @ replicate k CHR ''_'' \<and> int (length r) \<le> mx \<and> av r = None \<and>
          (\<forall>j<k. av (nm @ replicate j CHR ''_'') \<noteq> None)"
        then obtain k where k: "r = nm @ replicate k CHR ''_''"
          "\<forall>j<k. av (nm @ replicate j CHR ''_'') \<noteq> None" by blast
        have "k = 0"
        proof (rule ccontr)
          assume "k \<noteq> 0"
          then have "av (nm @ replicate 0 CHR ''_'') \<noteq> None" using k(2) by blast
          then show False using True by simp
        qed
        then show "r = nm" using k(1) by simp
      next
        assume "r = nm"
        then have "r = nm @ replicate 0 CHR ''_'' \<and> int (length r) \<le> mx \<and> av r = None \<and>
          (\<forall>j<0. av (nm @ replicate j CHR ''_'') \<noteq> None)"
          using False True by simp
        then show "\<exists>k. r = nm @ replicate k CHR ''_'' \<and> int (length r) \<le> mx \<and> av r = None \<and>
          (\<forall>j<k. av (nm @ replicate j CHR ''_'') \<noteq> None)" by blast
      qed
      show ?thesis unfolding lhs ex by auto
    next
      case avoided: False
      have lhs: "flatname_loop segs av mx nm = flatname_loop segs av mx (nm @ ''_'')"
        using False avoided by (subst flatname_loop_unfold) auto
      have IH: "(flatname_loop segs av mx (nm @ ''_'') = Inr r) =
         (\<exists>k. r = (nm @ ''_'') @ replicate k CHR ''_'' \<and> int (length r) \<le> mx \<and> av r = None \<and>
          (\<forall>j<k. av ((nm @ ''_'') @ replicate j CHR ''_'') \<noteq> None))"
        using "1.IH" False avoided by simp
      have "(\<exists>k. r = (nm @ ''_'') @ replicate k CHR ''_'' \<and> int (length r) \<le> mx \<and> av r = None \<and>
          (\<forall>j<k. av ((nm @ ''_'') @ replicate j CHR ''_'') \<noteq> None)) =
         (\<exists>k. r = nm @ replicate k CHR ''_'' \<and> int (length r) \<le> mx \<and> av r = None \<and>
          (\<forall>j<k. av (nm @ replicate j CHR ''_'') \<noteq> None))" (is "?L = ?R")
      proof
        assume ?L
        then obtain k where k: "r = (nm @ ''_'') @ replicate k CHR ''_''" "int (length r) \<le> mx"
          "av r = None" "\<forall>j<k. av ((nm @ ''_'') @ replicate j CHR ''_'') \<noteq> None" by blast
        have a: "r = nm @ replicate (Suc k) CHR ''_''" using k(1) snoc_underscore by metis
        have b: "\<forall>j<Suc k. av (nm @ replicate j CHR ''_'') \<noteq> None"
        proof (intro allI impI)
          fix j assume "j < Suc k"
          show "av (nm @ replicate j CHR ''_'') \<noteq> None"
          proof (cases j)
            case 0 then show ?thesis using avoided by simp
          next
            case (Suc i)
            then have "i < k" using \<open>j < Suc k\<close> by simp
            then have "av ((nm @ ''_'') @ replicate i CHR ''_'') \<noteq> None" using k(4) by blast
            then show ?thesis using Suc snoc_underscore by metis
          qed
        qed
        show ?R using a b k(2,3) by blast
      next
        assume ?R
        then obtain k where k: "r = nm @ replicate k CHR ''_''" "int (length r) \<le> mx"
          "av r = None" "\<forall>j<k. av (nm @ replicate j CHR ''_'') \<noteq> None" by blast
        have "k \<noteq> 0"
        proof
          assume "k = 0"
          then have "r = nm" using k(1) by simp
          then show False using k(3) avoided by simp
        qed
        then obtain i where i: "k = Suc i" by (cases k) auto
        have a: "r = (nm @ ''_'') @ replicate i CHR ''_''" using k(1) i snoc_underscore by metis
        have b: "\<forall>j<i. av ((nm @ ''_'') @ replicate j CHR ''_'') \<noteq> None"
        proof (intro allI impI)
          fix j assume "j < i"
          then have "Suc j < k" using i by simp
          then have "av (nm @ replicate (Suc j) CHR ''_'') \<noteq> None" using k(4) by blast
          then show "av ((nm @ ''_'') @ replicate j CHR ''_'') \<noteq> None"
            using snoc_underscore by metis
        qed
        show ?L using a b k(2,3) by blast
      qed
      then show ?thesis using lhs IH by simp
    qed
  qed
qed

lemma flatname_loop_Inl:
  "flatname_loop segs av mx nm = Inl e \<Longrightarrow>
     \<exists>k. e = RuntimeError (No_Flat_Name segs (nm @ replicate k CHR ''_'')) \<and>
         int (length nm + k) > mx \<and> (\<forall>j<k. av (nm @ replicate j CHR ''_'') \<noteq> None \<and> int (length nm + j) \<le> mx)"
proof (induction segs av mx nm rule: flatname_loop.induct)
  case (1 segs av mx nm)
  show ?case
  proof (cases "int (length nm) > mx")
    case True
    then have "e = RuntimeError (No_Flat_Name segs nm)"
      using "1.prems" by (subst (asm) flatname_loop_unfold) simp
    then have "e = RuntimeError (No_Flat_Name segs (nm @ replicate 0 CHR ''_'')) \<and>
         int (length nm + 0) > mx \<and> (\<forall>j<0. av (nm @ replicate j CHR ''_'') \<noteq> None \<and> int (length nm + j) \<le> mx)"
      using True by simp
    then show ?thesis by blast
  next
    case False
    show ?thesis
    proof (cases "av nm = None")
      case True
      then show ?thesis using "1.prems" False by (subst (asm) flatname_loop_unfold) simp
    next
      case avoided: False
      have "flatname_loop segs av mx (nm @ ''_'') = Inl e"
        using "1.prems" False avoided by (subst (asm) flatname_loop_unfold) auto
      then obtain k where k: "e = RuntimeError (No_Flat_Name segs ((nm @ ''_'') @ replicate k CHR ''_''))"
         "int (length (nm @ ''_'') + k) > mx"
         "\<forall>j<k. av ((nm @ ''_'') @ replicate j CHR ''_'') \<noteq> None \<and> int (length (nm @ ''_'') + j) \<le> mx"
        using "1.IH" False avoided by blast
      have a: "e = RuntimeError (No_Flat_Name segs (nm @ replicate (Suc k) CHR ''_''))"
        using k(1) snoc_underscore by metis
      have b: "int (length nm + Suc k) > mx" using k(2) by simp
      have c: "\<forall>j<Suc k. av (nm @ replicate j CHR ''_'') \<noteq> None \<and> int (length nm + j) \<le> mx"
      proof (intro allI impI)
        fix j assume "j < Suc k"
        show "av (nm @ replicate j CHR ''_'') \<noteq> None \<and> int (length nm + j) \<le> mx"
        proof (cases j)
          case 0 then show ?thesis using avoided False by simp
        next
          case (Suc i)
          then have "i < k" using \<open>j < Suc k\<close> by simp
          then have "av ((nm @ ''_'') @ replicate i CHR ''_'') \<noteq> None \<and> int (length (nm @ ''_'') + i) \<le> mx"
            using k(3) by blast
          then show ?thesis using Suc snoc_underscore[of nm i] by simp
        qed
      qed
      show ?thesis using a b c by blast
    qed
  qed
qed


text \<open>
  C5. \<open>flatname\<close> joins the segments with underscores and appends one underscore at a
  time while the candidate is a key of \<open>avoid\<close>; it returns the first candidate that is
  not a key, and fails with the naming error (a \<open>RuntimeError\<close>) exactly when a
  candidate longer than \<open>maxlen\<close> is reached first. An omitted \<open>avoid\<close> is the empty
  dictionary and an omitted \<open>maxlen\<close> is 511. The three examples of the specification
  are the last three conjuncts.
\<close>

theorem flatname_spec:
  "flatname segs (None :: (string \<rightharpoonup> 'v) option) mo =
     flatname segs (Some (Map.empty :: string \<rightharpoonup> 'v)) mo \<and>
   flatname segs ao None = flatname segs ao (Some 511) \<and>
   ((flatname segs (Some d) (Some mx) = Inr r) =
      (\<exists>k. r = join ''_'' segs @ replicate k CHR ''_'' \<and> int (length r) \<le> mx \<and> d r = None \<and>
           (\<forall>j<k. d (join ''_'' segs @ replicate j CHR ''_'') \<noteq> None))) \<and>
   (flatname segs (Some d) (Some mx) = Inl e \<longrightarrow>
      (\<exists>k. e = RuntimeError (No_Flat_Name segs (join ''_'' segs @ replicate k CHR ''_'')) \<and>
           mx < int (length (join ''_'' segs) + k) \<and>
           (\<forall>j<k. d (join ''_'' segs @ replicate j CHR ''_'') \<noteq> None \<and>
                  int (length (join ''_'' segs) + j) \<le> mx))) \<and>
   flatname [''a'', ''b''] None None = Inr ''a_b'' \<and>
   flatname [''a'', ''b''] (Some [''a_b'' \<mapsto> ()]) None = Inr ''a_b_'' \<and>
   flatname [''x''] (Some [''x'' \<mapsto> (), ''x_'' \<mapsto> (), ''x__'' \<mapsto> ()]) (Some 3) =
     Inl (RuntimeError (No_Flat_Name [''x''] ''x___''))"
proof (intro conjI)
  show "flatname segs (None :: (string \<rightharpoonup> 'v) option) mo =
     flatname segs (Some (Map.empty :: string \<rightharpoonup> 'v)) mo"
    by (simp add: flatname_def)
  show "flatname segs ao None = flatname segs ao (Some 511)"
    by (simp add: flatname_def)
  show "(flatname segs (Some d) (Some mx) = Inr r) =
      (\<exists>k. r = join ''_'' segs @ replicate k CHR ''_'' \<and> int (length r) \<le> mx \<and> d r = None \<and>
           (\<forall>j<k. d (join ''_'' segs @ replicate j CHR ''_'') \<noteq> None))"
    unfolding flatname_def by (simp only: option.case flatname_loop_Inr)
  show "flatname segs (Some d) (Some mx) = Inl e \<longrightarrow>
      (\<exists>k. e = RuntimeError (No_Flat_Name segs (join ''_'' segs @ replicate k CHR ''_'')) \<and>
           mx < int (length (join ''_'' segs) + k) \<and>
           (\<forall>j<k. d (join ''_'' segs @ replicate j CHR ''_'') \<noteq> None \<and>
                  int (length (join ''_'' segs) + j) \<le> mx))"
    unfolding flatname_def using flatname_loop_Inl[of segs d mx "join ''_'' segs" e]
    by (simp only: option.case) blast
  show "flatname [''a'', ''b''] None None = Inr ''a_b''"
    by (simp add: flatname_def flatname_loop.simps)
  show "flatname [''a'', ''b''] (Some [''a_b'' \<mapsto> ()]) None = Inr ''a_b_''"
    by (simp add: flatname_def flatname_loop.simps)
  show "flatname [''x''] (Some [''x'' \<mapsto> (), ''x_'' \<mapsto> (), ''x__'' \<mapsto> ()]) (Some 3) =
     Inl (RuntimeError (No_Flat_Name [''x''] ''x___''))"
    by (simp add: flatname_def flatname_loop.simps)
qed

theorem flatname_spec_witness:
  "flatname [''x''] (Some [''x'' \<mapsto> (), ''x_'' \<mapsto> (), ''x__'' \<mapsto> ()]) (Some 3) =
     Inl (RuntimeError (No_Flat_Name [''x''] ''x___'')) \<and>
   (\<exists>k. RuntimeError (No_Flat_Name [''x''] ''x___'') =
          RuntimeError (No_Flat_Name [''x''] (join ''_'' [''x''] @ replicate k CHR ''_'')) \<and>
        3 < int (length (join ''_'' [''x'']) + k))"
proof -
  have run: "flatname [''x''] (Some [''x'' \<mapsto> (), ''x_'' \<mapsto> (), ''x__'' \<mapsto> ()]) (Some 3) =
     Inl (RuntimeError (No_Flat_Name [''x''] ''x___''))"
    by (simp add: flatname_def flatname_loop.simps)
  from flatname_spec[of "[''x'']" "Some 3" "None :: (string \<rightharpoonup> unit) option" "[''x'' \<mapsto> (), ''x_'' \<mapsto> (), ''x__'' \<mapsto> ()]" 3 "''x''"
      "RuntimeError (No_Flat_Name [''x''] ''x___'')"] run
  show ?thesis by blast
qed


subsection \<open>MosParams\<close>

text \<open>
  C10. Although \<open>w\<close> and \<open>l\<close> are declared optional with default \<open>None\<close>, no
  \<open>MosParams\<close> can be constructed with either left unset: with \<open>w\<close> unset the check
  \<open>self.w <= 0\<close> raises \<open>TypeError\<close>, with \<open>l\<close> unset the constructor fails too (on
  the width check or on \<open>self.l <= 0\<close>), and every object that is constructed has a
  positive width and length. In particular \<open>MosParams()\<close> fails.
\<close>

theorem MosParams_unset_fails:
  "new_MosParams None l0 nser0 npar0 tp0 vth0 =
     Inl (TypeError (Unsupported_Operand ''<='' ''NoneType'' ''int'')) \<and>
   (\<exists>e. new_MosParams w0 None nser0 npar0 tp0 vth0 = Inl e) \<and>
   (new_MosParams w0 l0 nser0 npar0 tp0 vth0 = Inr p \<longrightarrow>
      (\<exists>wv lv. w p = Some wv \<and> l p = Some lv \<and> 0 < wv \<and> 0 < lv)) \<and>
   default_MosParams = Inl (TypeError (Unsupported_Operand ''<='' ''NoneType'' ''int''))"
proof (intro conjI)
  show "new_MosParams None l0 nser0 npar0 tp0 vth0 =
     Inl (TypeError (Unsupported_Operand ''<='' ''NoneType'' ''int''))"
    by (simp add: new_MosParams_def post_init_post_parse_def)
  show "\<exists>e. new_MosParams w0 None nser0 npar0 tp0 vth0 = Inl e"
    by (cases w0) (auto simp: new_MosParams_def post_init_post_parse_def Let_def split: bool.splits)
  show "new_MosParams w0 l0 nser0 npar0 tp0 vth0 = Inr p \<longrightarrow>
      (\<exists>wv lv. w p = Some wv \<and> l p = Some lv \<and> 0 < wv \<and> 0 < lv)"
    by (cases w0; cases l0)
      (auto simp: new_MosParams_def post_init_post_parse_def Let_def split: if_splits bool.splits)
  show "default_MosParams = Inl (TypeError (Unsupported_Operand ''<='' ''NoneType'' ''int''))"
    by (simp add: default_MosParams_def new_MosParams_def post_init_post_parse_def)
qed

theorem MosParams_unset_fails_witness:
  "new_MosParams (Some 3) (Some 2) 1 1 NMOS STD =
     Inr \<lparr>w = Some 3, l = Some 2, nser = 1, npar = 1, tp = NMOS, vth = STD\<rparr> \<and>
   (\<exists>wv lv. w \<lparr>w = Some 3, l = Some 2, nser = 1, npar = 1, tp = NMOS, vth = STD\<rparr> = Some wv \<and>
      l \<lparr>w = Some 3, l = Some 2, nser = 1, npar = 1, tp = NMOS, vth = STD\<rparr> = Some lv \<and>
      (0::int) < wv \<and> (0::int) < lv)"
proof -
  have run: "new_MosParams (Some 3) (Some 2) 1 1 NMOS STD =
     Inr \<lparr>w = Some 3, l = Some 2, nser = 1, npar = 1, tp = NMOS, vth = STD\<rparr>"
    by (simp add: new_MosParams_def post_init_post_parse_def)
  from MosParams_unset_fails[where ?w0.0 = "Some 3" and ?l0.0 = "Some 2" and ?nser0.0 = 1
      and ?npar0.0 = 1 and ?tp0.0 = NMOS and ?vth0.0 = STD
      and p = "\<lparr>w = Some 3, l = Some 2, nser = 1, npar = 1, tp = NMOS, vth = STD\<rparr>"] run
  show ?thesis by blast
qed
subsection \<open>The order of calls\<close>












































subsection \<open>The cache of the elaborator\<close>

text \<open>
  A call of \<open>elaborate_module_base\<close> on a \<open>Module\<close> that is in the cache returns at
  once: the state, and with it the data of the pass and the list of calls, is what it
  was, whatever the pass. What it returns is its argument, not the entry of the cache.
\<close>

lemma elaborate_module_base_cached:
  "run.modules s m = Some r \<Longrightarrow> elaborate_module_base (Suc n) P m s = Some (Inr m, s)"
  by simp

text \<open>
  C1. The second call on a cached \<open>Module\<close> does not return the object stored by the
  first call when the pass returned another object than its argument: with
  \<open>Replacing_pass\<close> the first call on the \<open>Module\<close> at address 0 returns the object at
  address 1 and stores it under 0, the second call returns the object at address 0. No
  method of the pass runs in the second call: the count kept by the pass stays at 1.
\<close>

theorem cache_hit_returns_argument:
  "elaborate_module_base (Suc 0) Replacing_pass 0 (fresh 0 two_leaves) =
     Some (Inr (Suc 0), replaced) \<and>
   run.modules replaced 0 = Some (Suc 0) \<and>
   elaborate_module_base (Suc 0) Replacing_pass 0 replaced = Some (Inr 0, replaced) \<and>
   pass_data replaced = Suc 0"
  by (simp add: fresh_def two_leaves_def leaf_def Replacing_pass_def call_elaborate_module_def
      replaced_def)

subsection \<open>A Module without contents\<close>

text \<open>
  C8. For a \<open>Module\<close> with no Module.instances, arrays or bundle Module.instances, elaboration under
  the base pass raises the naming error exactly when the name is empty; with any other
  name it returns the \<open>Module\<close> itself, and the graph is what it was.
\<close>

theorem elaborate_leaf:
  assumes "Module.instances (h m) = []" and "instarrays (h m) = []" and "bundles (h m) = []"
  shows "elaborate (Suc n) Elaborator d h (Top_Module m) =
           (if Module.name (h m) = []
            then Some (Inl (RuntimeError (Anonymous_Module m)), fresh d h)
            else Some (Inr m, \<lparr>run.modules = [m \<mapsto> m], pass_data = d, heap = h,
                               calls = [Call_elaborate_module m]\<rparr>)) \<and>
         ((\<exists>e s'. elaborate (Suc n) Elaborator d h (Top_Module m) = Some (Inl e, s')) =
            (Module.name (h m) = []))"
  using assms
  by (simp add: elaborate_def elaborate_top_def fresh_def Elaborator_def
      call_elaborate_module_def)

theorem elaborate_leaf_witness:
  "elaborate (Suc 0) Elaborator () two_leaves (Top_Module 0) =
     Some (Inr 0, \<lparr>run.modules = [0 \<mapsto> 0], pass_data = (), heap = two_leaves,
                    calls = [Call_elaborate_module 0]\<rparr>) \<and>
   elaborate (Suc 0) Elaborator () (\<lambda>a. leaf []) (Top_Module 0) =
     Some (Inl (RuntimeError (Anonymous_Module 0)), fresh () (\<lambda>a. leaf []))"
  using elaborate_leaf[of two_leaves 0 0 "()"] elaborate_leaf[of "\<lambda>a. leaf []" 0 0 "()"]
  by (simp add: two_leaves_def leaf_def)

subsection \<open>A GeneratorCall in a pass that is not the generator pass\<close>

lemma elaborate_instances_generator_call:
  "ki \<in> set kis \<Longrightarrow> Instance.resolved (snd ki) = Some (IGeneratorCall c) \<Longrightarrow>
   elaborate_instances n P m kis s \<noteq> Some (Inr r, s')"
proof (induction kis arbitrary: s)
  case Nil
  then show ?case by simp
next
  case (Cons x kis)
  show ?case
  proof (cases "Instance.resolved (snd x) = Some (IGeneratorCall c)")
    case True
    then show ?thesis by simp
  next
    case False
    then have "ki \<in> set kis" using Cons.prems by auto
    then have "\<And>s1. elaborate_instances n P m kis s1 \<noteq> Some (Inr r, s')"
      using Cons.IH Cons.prems(2) by blast
    then show ?thesis by (auto split: option.splits sum.splits prod.splits)
  qed
qed

text \<open>
  C6, as the code has it. In a pass that is not the generator pass, a \<open>GeneratorCall\<close>
  that reaches the traversal as the resolved target of an Instance or an InstanceArray
  makes the visit raise a bare \<open>TypeError\<close>, and the elaboration of a \<open>Module\<close> that is
  not in the cache and holds such an Instance never returns. The \<open>RuntimeError\<close> that
  names the pass is what the method \<open>elaborate_generator_call\<close> raises; the traversal
  does not call it.
\<close>

theorem generator_call_type_error:
  "elaborate_instantiable n P (Some (IGeneratorCall c)) s = Some (Inl (TypeError No_Message), s) \<and>
   (Instance.resolved (snd ki) = Some (IGeneratorCall c) \<longrightarrow>
      elaborate_instance n P m ki s =
        Some (Inl (TypeError No_Message),
              s\<lparr>heap := set_instance_elaborated m (fst ki) (heap s),
                calls := calls s @ [Call_elaborate_instance m (fst ki)]\<rparr>)) \<and>
   (InstArray.resolved (snd ka) = Some (IGeneratorCall c) \<longrightarrow>
      elaborate_instance_array n P m ka s =
        Some (Inl (TypeError No_Message),
              s\<lparr>heap := set_instarray_elaborated m (fst ka) (heap s),
                calls := calls s @ [Call_elaborate_instance_array m (fst ka)]\<rparr>)) \<and>
   (run.modules s m = None \<and> ki \<in> set (Module.instances (heap s m)) \<and>
    Instance.resolved (snd ki) = Some (IGeneratorCall c) \<longrightarrow>
      elaborate_module_base n P m s \<noteq> Some (Inr r, s')) \<and>
   elaborate_generator_call P c s =
     (Inl (RuntimeError (Invalid_GeneratorCall_by (pass_name P))), s)"
proof (intro conjI impI)
  show "elaborate_instantiable n P (Some (IGeneratorCall c)) s =
          Some (Inl (TypeError No_Message), s)" by simp
  show "elaborate_generator_call P c s =
     (Inl (RuntimeError (Invalid_GeneratorCall_by (pass_name P))), s)"
    by (simp add: elaborate_generator_call_def)
next
  assume "Instance.resolved (snd ki) = Some (IGeneratorCall c)"
  then show "elaborate_instance n P m ki s =
        Some (Inl (TypeError No_Message),
              s\<lparr>heap := set_instance_elaborated m (fst ki) (heap s),
                calls := calls s @ [Call_elaborate_instance m (fst ki)]\<rparr>)" by simp
next
  assume "InstArray.resolved (snd ka) = Some (IGeneratorCall c)"
  then show "elaborate_instance_array n P m ka s =
        Some (Inl (TypeError No_Message),
              s\<lparr>heap := set_instarray_elaborated m (fst ka) (heap s),
                calls := calls s @ [Call_elaborate_instance_array m (fst ka)]\<rparr>)" by simp
next
  assume a: "run.modules s m = None \<and> ki \<in> set (Module.instances (heap s m)) \<and>
    Instance.resolved (snd ki) = Some (IGeneratorCall c)"
  show "elaborate_module_base n P m s \<noteq> Some (Inr r, s')"
  proof (cases n)
    case 0
    then show ?thesis by simp
  next
    case (Suc k)
    have "\<And>u s1. elaborate_instances k P m (Module.instances (heap s m)) s \<noteq> Some (Inr u, s1)"
      using a elaborate_instances_generator_call by blast
    then show ?thesis using Suc a
      by (auto split: option.splits sum.splits prod.splits)
  qed
qed

theorem generator_call_type_error_witness:
  "elaborate_instance (Suc 0) (Elaborator :: unit Pass) 0
       (''g'', instance_of ''g'' (IGeneratorCall 7)) (fresh () generator_graph) =
     Some (Inl (TypeError No_Message), generator_failed) \<and>
   elaborate_module_base (Suc (Suc 0)) (Elaborator :: unit Pass) 0 (fresh () generator_graph) =
     Some (Inl (TypeError No_Message), generator_failed)"
proof -
  have r: "Instance.resolved (snd (''g'', instance_of ''g'' (IGeneratorCall 7))) =
           Some (IGeneratorCall 7)"
    by (simp add: instance_of_def)
  have s: "(fresh () generator_graph)
      \<lparr>heap := set_instance_elaborated 0 (fst (''g'', instance_of ''g'' (IGeneratorCall 7)))
                 (heap (fresh () generator_graph)),
       calls := calls (fresh () generator_graph) @
                [Call_elaborate_instance 0 (fst (''g'', instance_of ''g'' (IGeneratorCall 7)))]\<rparr> =
      generator_failed"
    by (simp add: fresh_def generator_graph_def generator_failed_def
        set_instance_elaborated_def leaf_def instance_of_def fun_eq_iff)
  have m: "elaborate_module_base (Suc (Suc 0)) (Elaborator :: unit Pass) 0
             (fresh () generator_graph) =
           Some (Inl (TypeError No_Message), generator_failed)"
    by (simp add: fresh_def generator_graph_def leaf_def instance_of_def
        set_instance_elaborated_def generator_failed_def fun_eq_iff)
  from generator_call_type_error[of "Suc 0" "Elaborator :: unit Pass" 7 "fresh () generator_graph"
      "(''g'', instance_of ''g'' (IGeneratorCall 7))" 0] r s m
  show ?thesis by simp
qed

text \<open>
  C6, as the specification has it, fails: with the base pass, the run on a \<open>Module\<close>
  whose instance points to a \<open>GeneratorCall\<close> ends in a \<open>TypeError\<close> without a message,
  not in a \<open>RuntimeError\<close>.
\<close>

theorem generator_call_counterexample:
  "elaborate (Suc (Suc 0)) Elaborator () generator_graph (Top_Module 0) =
     Some (Inl (TypeError No_Message), generator_failed) \<and>
   \<not> (\<exists>msg s'. elaborate (Suc (Suc 0)) Elaborator () generator_graph (Top_Module 0) =
                 Some (Inl (RuntimeError msg), s'))"
  by (simp add: elaborate_def elaborate_top_def fresh_def generator_graph_def leaf_def
      instance_of_def set_instance_elaborated_def generator_failed_def fun_eq_iff)

subsection \<open>Names and identities in the exporter\<close>

lemma map_of_update_same: "map_of (AList.update k v xs) k = Some v"
  by (simp add: update_conv')

text \<open>
  Exporting the same \<open>Module\<close> object a second time raises nothing and returns the
  exported \<open>Module\<close> of the first time, and the exporter is what it was.
\<close>

lemma export_module_again:
  assumes "export_module (Suc n) h m self = Some (Inr (pmod, self1))"
  shows "export_module (Suc k) h m self1 = Some (Inr (pmod, self1))"
proof (cases "map_of (ProtoExporter.modules self) m")
  case (Some p)
  then have "pmod = p" and "self1 = self" using assms by simp_all
  then show ?thesis using Some by simp
next
  case None
  then have "map_of (ProtoExporter.modules self1) m = Some pmod"
    using assms
    by (auto simp: Let_def map_of_update_same split: if_splits sum.splits option.splits)
  then show ?thesis by simp
qed

text \<open>
  A \<open>Module\<close> that is not exported yet, and whose name is recorded for a \<open>Module\<close>
  exported before, raises the collision error.
\<close>

lemma export_module_collision:
  assumes "map_of (ProtoExporter.modules self) m = None" and "interfaces (h m) = []"
    and "module_names self (Package.name (pkg self), pymodule (h m) @ ''.'' @ Module.name (h m)) =
           Some other"
  shows "export_module (Suc n) h m self =
           Some (Inl (RuntimeError (Conflicting_Name m
                  (Package.name (pkg self), pymodule (h m) @ ''.'' @ Module.name (h m)))))"
  using assms by (simp add: export_module_name_def Let_def)

text \<open>
  C3. The collision goes unnoticed when the second \<open>Module\<close> of a name is exported
  while the first is still being exported: the name is looked up before the instances
  are exported and recorded after. \<open>shadow_graph\<close> holds two \<open>Module\<close> objects with the
  same computed name, one instantiating the other; the export raises nothing and the
  package holds two \<open>Module\<close>s of one qualified name.
\<close>

theorem name_collision_missed:
  "pymodule (shadow_graph 0) @ ''.'' @ Module.name (shadow_graph 0) =
     pymodule (shadow_graph 1) @ ''.'' @ Module.name (shadow_graph 1) \<and>
   export (Suc (Suc 0)) shadow_graph [Top_Module 0] None =
     Some (Inr \<lparr>Package.name = [], modules = [shadow_child, shadow_parent],
                 ext_modules = []\<rparr>) \<and>
   proto_Module.name shadow_child = proto_Module.name shadow_parent"
  by (simp add: export_def new_ProtoExporter_def shadow_graph_def leaf_def instance_of_def
      export_module_name_def finish_instance_def Let_def shadow_child_def shadow_parent_def
      shadow_name_def)


subsection \<open>Parameters of an exported instance\<close>













subsection \<open>Dependency order of the exported package\<close>


lemma update_absent: "k \<notin> fst ` set xs \<Longrightarrow> AList.update k v xs = xs @ [(k, v)]"
  by (induction xs) auto

lemma dependency_ordered_new: "dependency_ordered h (new_ProtoExporter d)"
  by (simp add: dependency_ordered_def new_ProtoExporter_def exported_def)

lemma exported_closed:
  assumes "dependency_ordered h self" and "(x, y) \<in> (instantiates h)\<^sup>*"
    and "x \<in> set (exported self)"
  shows "y \<in> set (exported self)"
  using assms(2,3)
proof (induction rule: rtrancl_induct)
  case base
  then show ?case .
next
  case (step y z)
  then have "y \<in> set (exported self)" by simp
  then obtain i where i: "i < length (exported self)" "exported self ! i = y"
    by (auto simp: in_set_conv_nth)
  then obtain j where "j < i" "exported self ! j = z"
    using assms(1) step.hyps(2) unfolding dependency_ordered_def by blast
  then show ?case using i(1) by (metis less_trans nth_mem)
qed

lemma exported_before:
  assumes "dependency_ordered h self" and "(x, c) \<in> (instantiates h)\<^sup>+"
  shows "\<forall>i<length (exported self). exported self ! i = x \<longrightarrow> (\<exists>j<i. exported self ! j = c)"
  using assms(2)
proof (induction rule: trancl_induct)
  case (base y)
  then show ?case using assms(1) unfolding dependency_ordered_def by blast
next
  case (step y z)
  show ?case
  proof (intro allI impI)
    fix i assume i: "i < length (exported self)" "exported self ! i = x"
    then obtain j where j: "j < i" "exported self ! j = y" using step.IH by blast
    then have "j < length (exported self)" using i(1) by simp
    then obtain k where "k < j" "exported self ! k = z"
      using assms(1) step.hyps(2) j(2) unfolding dependency_ordered_def by blast
    then show "\<exists>j<i. exported self ! j = z" using j(1) by (metis less_trans)
  qed
qed

lemma export_external_module_modules:
  "export_external_module self emod = (p, self1) \<Longrightarrow>
   ProtoExporter.modules self1 = ProtoExporter.modules self \<and>
   Package.modules (pkg self1) = Package.modules (pkg self)"
  by (auto simp: export_external_module_def Let_def split: option.splits)

lemma export_external_module_ordered:
  assumes "export_external_module self emod = (p, self1)"
  shows "dependency_ordered h self1 = dependency_ordered h self"
    and "exported self1 = exported self"
  using export_external_module_modules[OF assms]
  by (simp_all add: dependency_ordered_def exported_def)


lemma export_module_hit:
  "map_of (ProtoExporter.modules self) m = Some p \<Longrightarrow>
   export_module (Suc n) h m self = Some (Inr (p, self))"
  by simp

lemma export_module_miss:
  assumes "export_module (Suc n) h m self = Some (Inr (pmod, self'))"
    and "map_of (ProtoExporter.modules self) m = None"
  shows "\<exists>pinsts self1.
           export_instances n h (Module.name (h m)) (map snd (Module.instances (h m))) self [] =
             Some (Inr (pinsts, self1)) \<and>
           ProtoExporter.modules self' = AList.update m pmod (ProtoExporter.modules self1) \<and>
           Package.modules (pkg self') = Package.modules (pkg self1) @ [pmod]"
proof -
  have a: "interfaces (h m) = []" using assms by (auto split: if_splits)
  obtain qname where b: "export_module_name h self m = Inr qname"
    using assms a by (cases "export_module_name h self m") auto
  obtain r where c: "export_instances n h (Module.name (h m))
                        (map snd (Module.instances (h m))) self [] = Some r"
    using assms a b by (auto split: option.splits)
  obtain pinsts self1 where d: "r = Inr (pinsts, self1)"
    using assms a b c by (cases r) auto
  show ?thesis using assms a b c d by (auto simp: Let_def)
qed

lemma export_instance_cases:
  assumes "export_instance n h inst self = Some (Inr (pinst, self'))"
  shows "(\<exists>c pmod. Instance.resolved inst = Some (IModule c) \<and>
            export_module n h c self = Some (Inr (pmod, self'))) \<or>
         ((\<forall>c. Instance.resolved inst \<noteq> Some (IModule c)) \<and>
            ProtoExporter.modules self' = ProtoExporter.modules self \<and>
            Package.modules (pkg self') = Package.modules (pkg self))"
proof (cases "Instance.resolved inst")
  case None
  then show ?thesis using assms by simp
next
  case (Some t)
  show ?thesis
  proof (cases t)
    case (IModule c)
    then show ?thesis using assms Some
      by (auto split: option.splits sum.splits prod.splits)
  next
    case (IPrimitiveCall call)
    then show ?thesis using assms Some by (auto split: sum.splits)
  next
    case (IExternalModuleCall call)
    obtain p s1 where e: "export_external_module self (ExternalModuleCall.module call) = (p, s1)"
      by (cases "export_external_module self (ExternalModuleCall.module call)") auto
    then have "self' = s1" using assms Some IExternalModuleCall by (auto split: sum.splits)
    then show ?thesis using export_external_module_modules[OF e] Some IExternalModuleCall by simp
  next
    case (IGeneratorCall g)
    then show ?thesis using assms Some by simp
  qed
qed

lemma export_instances_Cons:
  assumes "export_instances n h mname (inst # insts) self acc = Some (Inr (pinsts, self'))"
  shows "\<exists>pinst self1. export_instance n h inst self = Some (Inr (pinst, self1)) \<and>
           export_instances n h mname insts self1 (acc @ [pinst]) = Some (Inr (pinsts, self'))"
proof -
  have a: "Instance.resolved inst \<noteq> None" using assms by (auto split: if_splits)
  obtain r where b: "export_instance n h inst self = Some r"
    using assms a by (auto split: option.splits)
  obtain pinst self1 where c: "r = Inr (pinst, self1)" using assms a b by (cases r) auto
  show ?thesis using assms a b c by auto
qed


lemma exported_update:
  "ProtoExporter.modules self' = AList.update m pmod (ProtoExporter.modules self1) \<Longrightarrow>
   set (exported self') = insert m (set (exported self1))"
  by (simp add: exported_def dom_update)

lemma trap_instances:
  assumes T: "\<forall>m self pmod self'. export_module n h m self = Some (Inr (pmod, self')) \<and>
                S \<inter> set (exported self) = {} \<longrightarrow> m \<notin> S \<and> S \<inter> set (exported self') = {}"
  shows "export_instances n h mname insts self acc = Some (Inr (pinsts, self')) \<Longrightarrow>
         S \<inter> set (exported self) = {} \<Longrightarrow>
         S \<inter> set (exported self') = {} \<and>
         (\<forall>inst\<in>set insts. \<forall>c. Instance.resolved inst = Some (IModule c) \<longrightarrow> c \<notin> S)"
proof (induction insts arbitrary: self acc)
  case Nil
  then show ?case by simp
next
  case (Cons inst insts)
  from export_instances_Cons[OF Cons.prems(1)] obtain pinst self1 where
    one: "export_instance n h inst self = Some (Inr (pinst, self1))" and
    rest: "export_instances n h mname insts self1 (acc @ [pinst]) = Some (Inr (pinsts, self'))"
    by blast
  have step: "S \<inter> set (exported self1) = {} \<and>
              (\<forall>c. Instance.resolved inst = Some (IModule c) \<longrightarrow> c \<notin> S)"
    using export_instance_cases[OF one]
  proof
    assume "\<exists>c pmod. Instance.resolved inst = Some (IModule c) \<and>
              export_module n h c self = Some (Inr (pmod, self1))"
    then obtain c pmod where c: "Instance.resolved inst = Some (IModule c)"
      "export_module n h c self = Some (Inr (pmod, self1))" by blast
    then have "c \<notin> S \<and> S \<inter> set (exported self1) = {}" using T Cons.prems(2) by blast
    then show ?thesis using c(1) by simp
  next
    assume "(\<forall>c. Instance.resolved inst \<noteq> Some (IModule c)) \<and>
            ProtoExporter.modules self1 = ProtoExporter.modules self \<and>
            Package.modules (pkg self1) = Package.modules (pkg self)"
    then show ?thesis using Cons.prems(2) by (simp add: exported_def)
  qed
  then have "S \<inter> set (exported self') = {} \<and>
         (\<forall>inst\<in>set insts. \<forall>c. Instance.resolved inst = Some (IModule c) \<longrightarrow> c \<notin> S)"
    using Cons.IH[OF rest] by blast
  then show ?case using step by simp
qed

lemma trap:
  assumes S: "\<forall>s\<in>S. \<exists>c\<in>S. (s, c) \<in> instantiates h"
  shows "export_module n h m self = Some (Inr (pmod, self')) \<Longrightarrow>
         S \<inter> set (exported self) = {} \<Longrightarrow> m \<notin> S \<and> S \<inter> set (exported self') = {}"
proof (induction n arbitrary: m self pmod self')
  case 0
  then show ?case by simp
next
  case (Suc n)
  have T: "\<forall>m self pmod self'. export_module n h m self = Some (Inr (pmod, self')) \<and>
                S \<inter> set (exported self) = {} \<longrightarrow> m \<notin> S \<and> S \<inter> set (exported self') = {}"
    using Suc.IH by blast
  show ?case
  proof (cases "map_of (ProtoExporter.modules self) m")
    case (Some p)
    then have "m \<in> set (exported self)"
      by (metis exported_def image_eqI map_of_SomeD set_map fst_conv)
    moreover have "self' = self" using Suc.prems(1) Some by simp
    ultimately show ?thesis using Suc.prems(2) by auto
  next
    case None
    from export_module_miss[OF Suc.prems(1) None] obtain pinsts self1 where
      loop: "export_instances n h (Module.name (h m)) (map snd (Module.instances (h m))) self [] =
             Some (Inr (pinsts, self1))" and
      upd: "ProtoExporter.modules self' = AList.update m pmod (ProtoExporter.modules self1)"
      by blast
    have kids: "S \<inter> set (exported self1) = {} \<and>
         (\<forall>inst\<in>set (map snd (Module.instances (h m))). \<forall>c.
             Instance.resolved inst = Some (IModule c) \<longrightarrow> c \<notin> S)"
      using trap_instances[OF T loop Suc.prems(2)] .
    have "m \<notin> S"
    proof
      assume "m \<in> S"
      then obtain c where c: "c \<in> S" "(m, c) \<in> instantiates h" using S by blast
      then obtain ki where "ki \<in> set (Module.instances (h m))"
        "Instance.resolved (snd ki) = Some (IModule c)"
        by (auto simp: instantiates_def)
      then have "c \<notin> S" using kids by auto
      then show False using c(1) by simp
    qed
    then show ?thesis using kids exported_update[OF upd] by auto
  qed
qed


lemma appended_refl: "appended self self X"
  by (simp add: appended_def)

lemma appended_trans:
  "appended a b X \<Longrightarrow> appended b c Y \<Longrightarrow> X \<subseteq> Z \<Longrightarrow> Y \<subseteq> Z \<Longrightarrow> appended a c Z"
  unfolding appended_def by (metis Un_subset_iff append.assoc set_append subset_trans)

lemma appended_subset: "appended a b X \<Longrightarrow> set (exported a) \<subseteq> set (exported b)"
  unfolding appended_def by auto

lemma appended_new: "appended a b X \<Longrightarrow> x \<in> set (exported b) \<Longrightarrow> x \<notin> set (exported a) \<Longrightarrow> x \<in> X"
  unfolding appended_def by auto

lemma ordered_instances:
  assumes IH: "\<forall>m self pmod self'. export_module n h m self = Some (Inr (pmod, self')) \<and>
                 dependency_ordered h self \<longrightarrow>
                 dependency_ordered h self' \<and>
                 appended self self' {x. (m, x) \<in> (instantiates h)\<^sup>*} \<and>
                 m \<in> set (exported self')"
  shows "export_instances n h mname insts self acc = Some (Inr (pinsts, self')) \<Longrightarrow>
         dependency_ordered h self \<Longrightarrow>
         dependency_ordered h self' \<and>
         appended self self'
           {x. \<exists>inst\<in>set insts. \<exists>c. Instance.resolved inst = Some (IModule c) \<and>
                 (c, x) \<in> (instantiates h)\<^sup>*} \<and>
         (\<forall>inst\<in>set insts. \<forall>c. Instance.resolved inst = Some (IModule c) \<longrightarrow>
             c \<in> set (exported self'))"
proof (induction insts arbitrary: self acc)
  case Nil
  then show ?case by (simp add: appended_refl)
next
  case (Cons inst insts)
  let ?K = "\<lambda>is. {x. \<exists>i\<in>set is. \<exists>c. Instance.resolved i = Some (IModule c) \<and>
                 (c, x) \<in> (instantiates h)\<^sup>*}"
  from export_instances_Cons[OF Cons.prems(1)] obtain pinst self1 where
    one: "export_instance n h inst self = Some (Inr (pinst, self1))" and
    rest: "export_instances n h mname insts self1 (acc @ [pinst]) = Some (Inr (pinsts, self'))"
    by blast
  have step: "dependency_ordered h self1 \<and> appended self self1 (?K [inst]) \<and>
              (\<forall>c. Instance.resolved inst = Some (IModule c) \<longrightarrow> c \<in> set (exported self1))"
    using export_instance_cases[OF one]
  proof
    assume "\<exists>c pmod. Instance.resolved inst = Some (IModule c) \<and>
              export_module n h c self = Some (Inr (pmod, self1))"
    then obtain c pmod where c: "Instance.resolved inst = Some (IModule c)"
      "export_module n h c self = Some (Inr (pmod, self1))" by blast
    then have r: "dependency_ordered h self1"
      "appended self self1 {x. (c, x) \<in> (instantiates h)\<^sup>*}" "c \<in> set (exported self1)"
      using IH Cons.prems(2) by blast+
    have "?K [inst] = {x. (c, x) \<in> (instantiates h)\<^sup>*}" using c(1) by simp
    then show ?thesis using r c(1) by simp
  next
    assume a: "(\<forall>c. Instance.resolved inst \<noteq> Some (IModule c)) \<and>
            ProtoExporter.modules self1 = ProtoExporter.modules self \<and>
            Package.modules (pkg self1) = Package.modules (pkg self)"
    then have "dependency_ordered h self1" using Cons.prems(2)
      by (simp add: dependency_ordered_def exported_def)
    moreover have "appended self self1 (?K [inst])" using a by (simp add: appended_def exported_def)
    ultimately show ?thesis using a by simp
  qed
  then have tail: "dependency_ordered h self'" "appended self1 self' (?K insts)"
    "\<forall>i\<in>set insts. \<forall>c. Instance.resolved i = Some (IModule c) \<longrightarrow> c \<in> set (exported self')"
    using Cons.IH[OF rest] by blast+
  have app: "appended self self' (?K (inst # insts))"
  proof (rule appended_trans)
    show "appended self self1 (?K [inst])" using step by simp
    show "appended self1 self' (?K insts)" using tail(2) .
    show "?K [inst] \<subseteq> ?K (inst # insts)" by auto
    show "?K insts \<subseteq> ?K (inst # insts)" by auto
  qed
  have "\<forall>c. Instance.resolved inst = Some (IModule c) \<longrightarrow> c \<in> set (exported self')"
    using step appended_subset[OF tail(2)] by blast
  then show ?case using tail(1,3) app by simp
qed



lemma cycle_trap:
  assumes mc: "(m, c) \<in> instantiates h" and cm: "(c, m) \<in> (instantiates h)\<^sup>*"
  shows "\<forall>s\<in>{x. (m, x) \<in> (instantiates h)\<^sup>* \<and> (x, m) \<in> (instantiates h)\<^sup>*}.
           \<exists>y\<in>{x. (m, x) \<in> (instantiates h)\<^sup>* \<and> (x, m) \<in> (instantiates h)\<^sup>*}.
             (s, y) \<in> instantiates h"
proof
  fix s
  assume "s \<in> {x. (m, x) \<in> (instantiates h)\<^sup>* \<and> (x, m) \<in> (instantiates h)\<^sup>*}"
  then have ms: "(m, s) \<in> (instantiates h)\<^sup>*" and sm: "(s, m) \<in> (instantiates h)\<^sup>*" by simp_all
  have "(s, m) \<in> (instantiates h)\<^sup>+"
  proof -
    have "(m, m) \<in> (instantiates h)\<^sup>+" using mc cm by (rule rtrancl_into_trancl2)
    with sm show ?thesis by (rule rtrancl_trancl_trancl)
  qed
  then obtain y where y: "(s, y) \<in> instantiates h" "(y, m) \<in> (instantiates h)\<^sup>*"
    by (metis tranclD)
  have "(m, y) \<in> (instantiates h)\<^sup>*" using ms y(1) by (rule rtrancl_into_rtrancl)
  then show "\<exists>y\<in>{x. (m, x) \<in> (instantiates h)\<^sup>* \<and> (x, m) \<in> (instantiates h)\<^sup>*}.
             (s, y) \<in> instantiates h" using y by blast
qed


lemma ordered_snoc:
  assumes ord: "dependency_ordered h self1"
    and upd: "ProtoExporter.modules self' = ProtoExporter.modules self1 @ [(m, pmod)]"
    and pk: "Package.modules (pkg self') = Package.modules (pkg self1) @ [pmod]"
    and fresh: "m \<notin> set (exported self1)"
    and kids: "\<forall>c. (m, c) \<in> instantiates h \<longrightarrow> c \<in> set (exported self1)"
  shows "dependency_ordered h self'"
proof -
  have e: "exported self' = exported self1 @ [m]" using upd by (simp add: exported_def)
  have a: "Package.modules (pkg self') = map snd (ProtoExporter.modules self')"
    using ord upd pk by (simp add: dependency_ordered_def)
  have b: "distinct (exported self')" using ord e fresh by (simp add: dependency_ordered_def)
  have c: "\<forall>i<length (exported self'). \<forall>c. (exported self' ! i, c) \<in> instantiates h \<longrightarrow>
          (\<exists>j<i. exported self' ! j = c)"
  proof (intro allI impI)
    fix i c
    assume i: "i < length (exported self')" and ic: "(exported self' ! i, c) \<in> instantiates h"
    show "\<exists>j<i. exported self' ! j = c"
    proof (cases "i < length (exported self1)")
      case True
      then have "(exported self1 ! i, c) \<in> instantiates h" using ic e by (simp add: nth_append)
      then obtain j where j: "j < i" "exported self1 ! j = c"
        using ord True unfolding dependency_ordered_def by blast
      then have "exported self' ! j = c" using e True by (simp add: nth_append)
      then show ?thesis using j(1) by blast
    next
      case False
      then have il: "i = length (exported self1)" using i e by simp
      then have "exported self' ! i = m" using e by simp
      then have "c \<in> set (exported self1)" using ic kids by simp
      then obtain j where j: "j < length (exported self1)" "exported self1 ! j = c"
        by (auto simp: in_set_conv_nth)
      then have "exported self' ! j = c" using e by (simp add: nth_append)
      then show ?thesis using j(1) il by blast
    qed
  qed
  show ?thesis unfolding dependency_ordered_def using a b c by blast
qed

lemma export_module_ordered:
  "export_module n h m self = Some (Inr (pmod, self')) \<Longrightarrow> dependency_ordered h self \<Longrightarrow>
   dependency_ordered h self' \<and>
   appended self self' {x. (m, x) \<in> (instantiates h)\<^sup>*} \<and>
   m \<in> set (exported self')"
proof (induction n arbitrary: m self pmod self')
  case 0
  then show ?case by simp
next
  case (Suc n)
  have IH: "\<forall>m self pmod self'. export_module n h m self = Some (Inr (pmod, self')) \<and>
                 dependency_ordered h self \<longrightarrow>
                 dependency_ordered h self' \<and>
                 appended self self' {x. (m, x) \<in> (instantiates h)\<^sup>*} \<and>
                 m \<in> set (exported self')"
    using Suc.IH by blast
  show ?case
  proof (cases "map_of (ProtoExporter.modules self) m")
    case (Some p)
    then have "m \<in> set (exported self)"
      by (metis exported_def image_eqI map_of_SomeD set_map fst_conv)
    moreover have "self' = self" using Suc.prems(1) Some by simp
    ultimately show ?thesis using Suc.prems(2) appended_refl by simp
  next
    case None
    then have m_new: "m \<notin> set (exported self)"
      by (simp add: exported_def map_of_eq_None_iff)
    from export_module_miss[OF Suc.prems(1) None] obtain pinsts self1 where
      loop: "export_instances n h (Module.name (h m)) (map snd (Module.instances (h m))) self [] =
             Some (Inr (pinsts, self1))" and
      upd: "ProtoExporter.modules self' = AList.update m pmod (ProtoExporter.modules self1)" and
      pk: "Package.modules (pkg self') = Package.modules (pkg self1) @ [pmod]"
      by blast
    let ?K = "{x. \<exists>inst\<in>set (map snd (Module.instances (h m))). \<exists>c.
                 Instance.resolved inst = Some (IModule c) \<and> (c, x) \<in> (instantiates h)\<^sup>*}"
    have l: "dependency_ordered h self1" "appended self self1 ?K"
      "\<forall>inst\<in>set (map snd (Module.instances (h m))). \<forall>c.
          Instance.resolved inst = Some (IModule c) \<longrightarrow> c \<in> set (exported self1)"
      using ordered_instances[OF IH loop Suc.prems(2)] by blast+
    have kids: "\<forall>c. (m, c) \<in> instantiates h \<longrightarrow> c \<in> set (exported self1)"
      using l(3) by (auto simp: instantiates_def)
    have K: "?K \<subseteq> {x. (m, x) \<in> (instantiates h)\<^sup>*}"
    proof
      fix x assume "x \<in> ?K"
      then obtain ki c where "ki \<in> set (Module.instances (h m))"
        "Instance.resolved (snd ki) = Some (IModule c)" "(c, x) \<in> (instantiates h)\<^sup>*"
        by auto
      then have "(m, c) \<in> instantiates h" by (auto simp: instantiates_def)
      then show "x \<in> {x. (m, x) \<in> (instantiates h)\<^sup>*}"
        using \<open>(c, x) \<in> (instantiates h)\<^sup>*\<close> by (simp add: converse_rtrancl_into_rtrancl)
    qed
    have fresh: "m \<notin> set (exported self1)"
    proof
      assume "m \<in> set (exported self1)"
      then have "m \<in> ?K" using appended_new[OF l(2)] m_new by blast
      then obtain ki c where ki: "ki \<in> set (Module.instances (h m))"
        "Instance.resolved (snd ki) = Some (IModule c)" and cm: "(c, m) \<in> (instantiates h)\<^sup>*"
        by auto
      have mc: "(m, c) \<in> instantiates h" using ki by (auto simp: instantiates_def)
      let ?S = "{x. (m, x) \<in> (instantiates h)\<^sup>* \<and> (x, m) \<in> (instantiates h)\<^sup>*}"
      have tr: "\<forall>s\<in>?S. \<exists>y\<in>?S. (s, y) \<in> instantiates h" using cycle_trap[OF mc cm] .
      have dis: "?S \<inter> set (exported self) = {}"
      proof (rule ccontr)
        assume "?S \<inter> set (exported self) \<noteq> {}"
        then obtain x where "x \<in> set (exported self)" "(x, m) \<in> (instantiates h)\<^sup>*" by blast
        then have "m \<in> set (exported self)"
          using exported_closed[OF Suc.prems(2)] by blast
        then show False using m_new by simp
      qed
      have "m \<notin> ?S" using trap[OF tr Suc.prems(1) dis] by simp
      then show False by simp
    qed
    have upd': "ProtoExporter.modules self' = ProtoExporter.modules self1 @ [(m, pmod)]"
      using upd fresh by (simp add: update_absent exported_def)
    have ord: "dependency_ordered h self'"
      using ordered_snoc[OF l(1) upd' pk fresh kids] .
    have e: "exported self' = exported self1 @ [m]" using upd' by (simp add: exported_def)
    have a1: "appended self1 self' {x. (m, x) \<in> (instantiates h)\<^sup>*}"
      unfolding appended_def using e by auto
    have app: "appended self self' {x. (m, x) \<in> (instantiates h)\<^sup>*}"
      using l(2) a1 K by (rule appended_trans) simp
    show ?thesis using ord app e by simp
  qed
qed


lemma export_tops_ordered:
  "export_tops n h tops self = Some (Inr self') \<Longrightarrow> dependency_ordered h self \<Longrightarrow>
   dependency_ordered h self' \<and> set (exported self) \<subseteq> set (exported self') \<and>
   (\<forall>m. Top_Module m \<in> set tops \<longrightarrow> m \<in> set (exported self'))"
proof (induction tops arbitrary: self)
  case Nil
  then show ?case by simp
next
  case (Cons t tops)
  show ?case
  proof (cases t)
    case Top_Other
    then show ?thesis using Cons.prems(1) by simp
  next
    case (Top_Module m)
    from Cons.prems(1) Top_Module obtain pmod self1 where
      one: "export_module n h m self = Some (Inr (pmod, self1))" and
      rest: "export_tops n h tops self1 = Some (Inr self')"
      by (auto split: option.splits sum.splits)
    have o: "dependency_ordered h self1" "appended self self1 {x. (m, x) \<in> (instantiates h)\<^sup>*}"
      "m \<in> set (exported self1)"
      using export_module_ordered[OF one Cons.prems(2)] by blast+
    have r: "dependency_ordered h self'" "set (exported self1) \<subseteq> set (exported self')"
      "\<forall>m. Top_Module m \<in> set tops \<longrightarrow> m \<in> set (exported self')"
      using Cons.IH[OF rest o(1)] by simp_all
    have "set (exported self) \<subseteq> set (exported self')"
      using appended_subset[OF o(2)] r(2) by blast
    moreover have "m \<in> set (exported self')" using o(3) r(2) by blast
    ultimately show ?thesis using r(1,3) Top_Module by auto
  qed
qed

text \<open>
  C2. When the export of the tops returns, the list of \<open>Module\<close>s of the package is,
  entry by entry, the list of what the exporter's dictionary holds for the identities of
  the exported \<open>Module\<close>s; every top is among them, none is there twice, and every
  \<open>Module\<close> that the \<open>Module\<close> at index \<open>i\<close> instantiates, directly or through other
  \<open>Module\<close>s, is at an index below \<open>i\<close>.
\<close>

theorem export_dependency_order:
  assumes "export_tops n h tops (new_ProtoExporter domain0) = Some (Inr self)"
  shows "export n h tops domain0 = Some (Inr (pkg self)) \<and>
         Package.modules (pkg self) = map snd (ProtoExporter.modules self) \<and>
         distinct (map fst (ProtoExporter.modules self)) \<and>
         (\<forall>m. Top_Module m \<in> set tops \<longrightarrow> m \<in> fst ` set (ProtoExporter.modules self)) \<and>
         (\<forall>i<length (ProtoExporter.modules self). \<forall>c.
             (fst (ProtoExporter.modules self ! i), c) \<in> (instantiates h)\<^sup>+ \<longrightarrow>
             (\<exists>j<i. fst (ProtoExporter.modules self ! j) = c))"
proof -
  have o: "dependency_ordered h self"
    "\<forall>m. Top_Module m \<in> set tops \<longrightarrow> m \<in> set (exported self)"
    using export_tops_ordered[OF assms dependency_ordered_new] by blast+
  have a: "export n h tops domain0 = Some (Inr (pkg self))" using assms by (simp add: export_def)
  have b: "Package.modules (pkg self) = map snd (ProtoExporter.modules self)"
    and c: "distinct (map fst (ProtoExporter.modules self))"
    using o(1) by (simp_all add: dependency_ordered_def exported_def)
  have d: "\<forall>m. Top_Module m \<in> set tops \<longrightarrow> m \<in> fst ` set (ProtoExporter.modules self)"
    using o(2) by (simp add: exported_def)
  have e: "\<forall>i<length (ProtoExporter.modules self). \<forall>c.
             (fst (ProtoExporter.modules self ! i), c) \<in> (instantiates h)\<^sup>+ \<longrightarrow>
             (\<exists>j<i. fst (ProtoExporter.modules self ! j) = c)"
  proof (intro allI impI)
    fix i c
    assume i: "i < length (ProtoExporter.modules self)"
      and ic: "(fst (ProtoExporter.modules self ! i), c) \<in> (instantiates h)\<^sup>+"
    have il: "i < length (exported self)" using i by (simp add: exported_def)
    have "exported self ! i = fst (ProtoExporter.modules self ! i)"
      using i by (simp add: exported_def)
    then obtain j where j: "j < i" "exported self ! j = c"
      using exported_before[OF o(1) ic] il by blast
    then have "fst (ProtoExporter.modules self ! j) = c" using i by (simp add: exported_def)
    then show "\<exists>j<i. fst (ProtoExporter.modules self ! j) = c" using j(1) by blast
  qed
  show ?thesis using a b c d e by blast
qed

lemma diamond_run:
  "export_tops (Suc (Suc (Suc 0))) diamond_graph [Top_Module 0] (new_ProtoExporter None) =
     Some (Inr diamond_done)"
  by (simp add: new_ProtoExporter_def diamond_graph_def leaf_def instance_of_def
      export_module_name_def finish_instance_def Let_def diamond_done_def diamond_low_def
      diamond_mid_def diamond_top_def fun_eq_iff)

theorem export_dependency_order_witness:
  "export_tops (Suc (Suc (Suc 0))) diamond_graph [Top_Module 0] (new_ProtoExporter None) =
     Some (Inr diamond_done) \<and>
   export (Suc (Suc (Suc 0))) diamond_graph [Top_Module 0] None = Some (Inr (pkg diamond_done)) \<and>
   Package.modules (pkg diamond_done) = map snd (ProtoExporter.modules diamond_done) \<and>
   map fst (ProtoExporter.modules diamond_done) = [2, 1, 0] \<and>
   (0, 2) \<in> (instantiates diamond_graph)\<^sup>+ \<and>
   (\<exists>j<2. fst (ProtoExporter.modules diamond_done ! j) = 2)"
proof -
  have r: "(0, 2) \<in> (instantiates diamond_graph)\<^sup>+"
    by (rule r_into_trancl) (simp add: instantiates_def diamond_graph_def leaf_def instance_of_def)
  have i: "fst (ProtoExporter.modules diamond_done ! 2) = 0"
    "2 < length (ProtoExporter.modules diamond_done)"
    "map fst (ProtoExporter.modules diamond_done) = [2, 1, 0]"
    by (simp_all add: diamond_done_def)
  from export_dependency_order[OF diamond_run] r i diamond_run
  show ?thesis by metis
qed

subsection \<open>The ASAP7 walker\<close>

text \<open>
  C9, as the code has it. For a visited Instance whose target is a call of the \<open>Mos\<close>
  primitive with parameters that are not in the walker's cache, a miss in the table (no
  \<open>ExternalModule\<close> for the parameters' \<open>tp\<close> and \<open>vth\<close>) is a \<open>RuntimeError\<close>, and a
  hit puts a call of the module found in the place of the target. An Instance whose
  target is a call of any other primitive is left as it is, and so is the walker.
\<close>

theorem visit_instance_primitive:
  "(inst_of inst = IPrimitiveCall \<lparr>prim = Mos, params = MosParams_obj ps\<rparr> \<and>
    mos_modcalls self ps = None \<and> mos_modules G (tp ps, vth ps) = None \<longrightarrow>
      visit_instance G super_visit self inst = Inl (RuntimeError (No_Mos_Module (modname G)))) \<and>
   (inst_of inst = IPrimitiveCall \<lparr>prim = Mos, params = MosParams_obj ps\<rparr> \<and>
    mos_modcalls self ps = None \<and> mos_modules G (tp ps, vth ps) = Some emod \<longrightarrow>
      visit_instance G super_visit self inst =
        Inr (inst\<lparr>inst_of := IExternalModuleCall
                    \<lparr>ExternalModuleCall.module = emod,
                     params = filter (\<lambda>kv. fst kv \<noteq> ''vth'') (asdict (MosParams_obj ps))\<rparr>\<rparr>,
             self\<lparr>mos_modcalls := (mos_modcalls self)
                    (ps \<mapsto> \<lparr>ExternalModuleCall.module = emod,
                            params = filter (\<lambda>kv. fst kv \<noteq> ''vth'')
                                       (asdict (MosParams_obj ps))\<rparr>)\<rparr>)) \<and>
   (inst_of inst = IPrimitiveCall primcall \<and>
    Primitive.ident (prim primcall) \<noteq> Primitive.ident Mos \<longrightarrow>
      visit_instance G super_visit self inst = Inr (inst, self))"
  by (auto simp: visit_instance_def replace_primitive_def mos_module_call_def mos_module_def
      Let_def)

theorem visit_instance_primitive_witness:
  "visit_instance nmos_only (\<lambda>self inst. Inl (TypeError No_Message))
       \<lparr>mos_modcalls = Map.empty\<rparr> pmos_instance =
     Inl (RuntimeError (No_Mos_Module ''pmos_sram''))"
  using visit_instance_primitive[of pmos_instance
      "\<lparr>w = Some 2, l = Some 1, nser = 1, npar = 1, tp = PMOS, vth = STD\<rparr>"
      "\<lparr>mos_modcalls = Map.empty\<rparr>" nmos_only "\<lambda>self inst. Inl (TypeError No_Message)"]
  by (simp add: pmos_instance_def instance_of_def nmos_only_def)

text \<open>
  C9, as the specification has it, fails: no module is registered for a resistor, and
  the walker passes the instance through unmodified.
\<close>

theorem visit_instance_counterexample:
  "visit_instance nmos_only (\<lambda>self inst. Inl (TypeError No_Message))
       \<lparr>mos_modcalls = Map.empty\<rparr> resistor_instance =
     Inr (resistor_instance, \<lparr>mos_modcalls = Map.empty\<rparr>) \<and>
   inst_of resistor_instance =
     IPrimitiveCall \<lparr>prim = Resistor,
       params = Paramclass_obj ResistorParams_type [(''r'', VFloat 0x408F400000000000)]\<rparr>"
  by (simp add: visit_instance_def replace_primitive_def resistor_instance_def instance_of_def
      Resistor_def Mos_def)

end
